theory Spec2Isabelle
  imports Main "HOL-Library.Log_Nat"
begin

section \<open>Python values, exceptions and external calls\<close>

text \<open>
  A shallow embedding of \<^verbatim>\<open>app.py\<close>, the AVIF conversion service. Python \<^verbatim>\<open>bytes\<close> and
  \<^verbatim>\<open>str\<close> are lists of 8-bit characters (a \<^verbatim>\<open>str\<close> in its UTF-8 encoding), Python
  integers are \<^typ>\<open>int\<close>, and \<^verbatim>\<open>Optional[int]\<close> is \<^typ>\<open>int option\<close>.

  An exception is a value: its class and the message \<^verbatim>\<open>str(e)\<close>. Of the classes only
  membership in \<^verbatim>\<open>httpx.HTTPError\<close> is inspected by the code (the \<^verbatim>\<open>except\<close> clauses
  of the URL handler); every class below is a subclass of \<^verbatim>\<open>Exception\<close>.
\<close>

type_synonym bytes = string

datatype exn_class =
  HTTPError | ZeroDivisionError | OverflowError | TypeError | ValueError | IndexError
  | UnicodeEncodeError | OtherException

datatype exn = Exn exn_class string

fun str_exn :: "exn \<Rightarrow> string" where
  "str_exn (Exn c m) = m"

fun is_HTTPError :: "exn \<Rightarrow> bool" where
  "is_HTTPError (Exn c m) = (c = HTTPError)"

datatype pyval = PyStr string | PyBool bool | PyInt int

record image =
  mode :: string
  isize :: "int \<times> int"
  pixels :: bytes

datatype resample = LANCZOS

text \<open>
  The Pillow calls the conversion routine makes. Pillow is not part of the repository, so
  the library is a parameter; each call either raises or returns.
\<close>

record pillow =
  image_open :: "bytes \<Rightarrow> exn + image"
  image_convert :: "image \<Rightarrow> string \<Rightarrow> exn + image"
  image_resize :: "image \<Rightarrow> int \<times> int \<Rightarrow> resample \<Rightarrow> exn + image"
  image_save :: "image \<Rightarrow> (string \<times> pyval) list \<Rightarrow> exn + bytes"

record client_config =
  timeout :: rat
  follow_redirects :: bool

record httpx_response =
  resp_status_code :: int
  resp_headers :: "(string \<times> string) list"
  resp_content :: bytes

text \<open>
  The \<^verbatim>\<open>httpx\<close> calls of the URL handler, a parameter for the same reason, and with them
  the two string methods the handler applies to the fetched header, \<^verbatim>\<open>str.strip\<close> and
  \<^verbatim>\<open>str.lower\<close>: they follow the Unicode character tables, which are not part of the
  repository either.
\<close>

record httpx =
  client_get :: "client_config \<Rightarrow> string \<Rightarrow> exn + httpx_response"
  raise_for_status :: "httpx_response \<Rightarrow> exn + unit"
  str_strip :: "string \<Rightarrow> string"
  str_lower :: "string \<Rightarrow> string"

text \<open>
  Every call that leaves the program is recorded as an event, in the order of the calls.
  A computation is the list of the events it performed and its outcome.
\<close>

datatype event =
    FileRead
  | ClientGet client_config string
  | RaiseForStatus httpx_response
  | ImageOpen bytes
  | ImageConvert image string
  | ImageResize image "int \<times> int" resample
  | ImageSave image "(string \<times> pyval) list"

type_synonym 'a io = "event list \<times> (exn + 'a)"

definition ret :: "'a \<Rightarrow> 'a io" where
  "ret x = ([], Inr x)"

definition lift :: "exn + 'a \<Rightarrow> 'a io" where
  "lift r = ([], r)"

definition call :: "event \<Rightarrow> exn + 'a \<Rightarrow> 'a io" where
  "call ev r = ([ev], r)"

definition bind_io :: "'a io \<Rightarrow> ('a \<Rightarrow> 'b io) \<Rightarrow> 'b io" where
  "bind_io m f =
     (case m of
        (t, Inl e) \<Rightarrow> (t, Inl e)
      | (t, Inr x) \<Rightarrow> (case f x of (t', r) \<Rightarrow> (t @ t', r)))"

section \<open>Python float arithmetic\<close>

text \<open>
  \<^verbatim>\<open>int(w * (height / h))\<close> is computed in IEEE 754 binary64. A finite double is a
  rational; \<open>round_double\<close> rounds a rational to the nearest double, ties to even, with
  53 significant bits above the subnormal range, and returns \<open>None\<close> when the rounded
  value is beyond the largest finite double.
\<close>

definition pow2 :: "int \<Rightarrow> rat" where
  "pow2 k = (if 0 \<le> k then 2 ^ nat k else 1 / 2 ^ nat (- k))"

definition ilog2 :: "rat \<Rightarrow> int" where
  "ilog2 x = (case quotient_of x of (p, q) \<Rightarrow>
     (let d = bitlen p - bitlen q in if pow2 d \<le> x then d else d - 1))"

definition round_half_even :: "rat \<Rightarrow> int" where
  "round_half_even y =
     (let f = \<lfloor>y\<rfloor>; d = y - of_int f
      in if d < 1 / 2 then f
         else if 1 / 2 < d then f + 1
         else if even f then f else f + 1)"

definition round_double :: "rat \<Rightarrow> rat option" where
  "round_double x =
     (if x = 0 then Some 0
      else let e = ilog2 \<bar>x\<bar>;
               q = max (e - 52) (- 1074);
               y = of_int (round_half_even (\<bar>x\<bar> / pow2 q)) * pow2 q
           in if 1024 \<le> ilog2 y then None else Some (sgn x * y))"

definition quoted :: "string \<Rightarrow> string" where
  "quoted s = [CHR 0x27] @ s @ [CHR 0x27]"

text \<open>\<^verbatim>\<open>a / b\<close> on an optional integer and an integer: true division, correctly rounded.\<close>

definition true_div :: "int option \<Rightarrow> int \<Rightarrow> exn + rat" where
  "true_div a b =
     (case a of
        None \<Rightarrow> Inl (Exn TypeError
          (''unsupported operand type(s) for /: '' @ quoted ''NoneType'' @ '' and '' @ quoted ''int''))
      | Some n \<Rightarrow>
          if b = 0 then Inl (Exn ZeroDivisionError ''division by zero'')
          else (case round_double (of_int n / of_int b) of
                  None \<Rightarrow> Inl (Exn OverflowError ''integer division result too large for a float'')
                | Some q \<Rightarrow> Inr q))"

text \<open>
  \<^verbatim>\<open>a * x\<close> on an integer and a float: the integer is converted to a float, which raises
  when it is too large; the product is rounded and overflows to infinity (\<open>None\<close>).
\<close>

definition int_mul_float :: "int \<Rightarrow> rat \<Rightarrow> exn + rat option" where
  "int_mul_float a x =
     (case round_double (of_int a) of
        None \<Rightarrow> Inl (Exn OverflowError ''int too large to convert to float'')
      | Some fa \<Rightarrow> Inr (round_double (fa * x)))"

text \<open>\<^verbatim>\<open>int(x)\<close> on a float: truncation towards zero; infinity raises.\<close>

definition trunc :: "rat \<Rightarrow> int" where
  "trunc p = (if 0 \<le> p then \<lfloor>p\<rfloor> else \<lceil>p\<rceil>)"

definition py_int :: "rat option \<Rightarrow> exn + int" where
  "py_int x =
     (case x of
        None \<Rightarrow> Inl (Exn OverflowError ''cannot convert float infinity to integer'')
      | Some p \<Rightarrow> Inr (trunc p))"

text \<open>\<^verbatim>\<open>int(a * (b / c))\<close>, the division first.\<close>

definition scale_dim :: "int \<Rightarrow> int option \<Rightarrow> int \<Rightarrow> exn + int" where
  "scale_dim a b c =
     (case true_div b c of
        Inl e \<Rightarrow> Inl e
      | Inr q \<Rightarrow> (case int_mul_float a q of Inl e \<Rightarrow> Inl e | Inr p \<Rightarrow> py_int p))"

section \<open>The conversion routine\<close>

text \<open>Truth value of an \<^verbatim>\<open>Optional[int]\<close>: \<^verbatim>\<open>None\<close> and \<open>0\<close> are false.\<close>

definition truthy :: "int option \<Rightarrow> bool" where
  "truthy x = (case x of None \<Rightarrow> False | Some n \<Rightarrow> n \<noteq> 0)"

text \<open>\<^verbatim>\<open>x or e\<close>: \<open>e\<close> is evaluated only when \<open>x\<close> is false.\<close>

definition py_or :: "int option \<Rightarrow> exn + int \<Rightarrow> exn + int" where
  "py_or x e = (case x of None \<Rightarrow> e | Some n \<Rightarrow> if n \<noteq> 0 then Inr n else e)"

text \<open>
  \<^verbatim>\<open>_to_avif_bytes\<close> is one function of three blocks after the decoding: the mode
  normalization, the optional resize and the encoding. Each block is a function here, and
  \<open>to_avif_bytes\<close> runs them in the order of the source. The size is read from the
  normalized image, and \<open>target_w\<close> is computed before \<open>target_h\<close>.
\<close>

definition normalize_mode :: "pillow \<Rightarrow> image \<Rightarrow> image io" where
  "normalize_mode lib img =
     (if mode img \<in> {''P'', ''LA''} then
        call (ImageConvert img ''RGBA'') (image_convert lib img ''RGBA'')
      else if mode img \<notin> {''RGB'', ''RGBA''} then
        call (ImageConvert img ''RGBA'') (image_convert lib img ''RGBA'')
      else ret img)"

definition resize_step :: "pillow \<Rightarrow> image \<Rightarrow> int option \<Rightarrow> int option \<Rightarrow> image io" where
  "resize_step lib img width height =
     (if truthy width \<or> truthy height then
        (case isize img of (w, h) \<Rightarrow>
           bind_io (lift (py_or width (scale_dim w height h))) (\<lambda>target_w.
           bind_io (lift (py_or height (scale_dim h width w))) (\<lambda>target_h.
           call (ImageResize img (target_w, target_h) LANCZOS)
                (image_resize lib img (target_w, target_h) LANCZOS))))
      else ret img)"

definition save_params :: "int \<Rightarrow> bool \<Rightarrow> (string \<times> pyval) list" where
  "save_params quality lossless =
     [(''format'', PyStr ''AVIF'')] @
     (if lossless then [(''lossless'', PyBool True)] else [(''quality'', PyInt quality)])"

definition save_step :: "pillow \<Rightarrow> int \<Rightarrow> bool \<Rightarrow> image \<Rightarrow> bytes io" where
  "save_step lib quality lossless img =
     call (ImageSave img (save_params quality lossless))
          (image_save lib img (save_params quality lossless))"

definition to_avif_bytes ::
  "pillow \<Rightarrow> bytes \<Rightarrow> int \<Rightarrow> bool \<Rightarrow> int option \<Rightarrow> int option \<Rightarrow> bytes io" where
  "to_avif_bytes lib data quality lossless width height =
     bind_io (call (ImageOpen data) (image_open lib data)) (\<lambda>img.
     bind_io (normalize_mode lib img) (\<lambda>img.
     bind_io (resize_step lib img width height) (\<lambda>img.
     save_step lib quality lossless img)))"

section \<open>Strings\<close>

text \<open>
  \<^verbatim>\<open>s.rsplit(sep, 1)\<close> for a one-character separator: the string is cut at the last
  occurrence of the separator, which is dropped; without an occurrence the list has the
  string alone. The separator is ASCII, so cutting the UTF-8 encoding cuts the string.
\<close>

definition rsplit1 :: "string \<Rightarrow> char \<Rightarrow> string list" where
  "rsplit1 s sep =
     (if sep \<in> set s then
        [rev (tl (dropWhile (\<lambda>c. c \<noteq> sep) (rev s))), rev (takeWhile (\<lambda>c. c \<noteq> sep) (rev s))]
      else [s])"

text \<open>\<^verbatim>\<open>xs[0]\<close>: raises on the empty list.\<close>

definition index0 :: "'a list \<Rightarrow> exn + 'a" where
  "index0 xs = (case xs of [] \<Rightarrow> Inl (Exn IndexError ''list index out of range'') | x # _ \<Rightarrow> Inr x)"

text \<open>\<^verbatim>\<open>s or d\<close> on an optional string: \<^verbatim>\<open>None\<close> and the empty string are false.\<close>

definition str_or :: "string option \<Rightarrow> string \<Rightarrow> string" where
  "str_or s d = (case s of None \<Rightarrow> d | Some x \<Rightarrow> if x \<noteq> [] then x else d)"

definition ascii_lower :: "char \<Rightarrow> char" where
  "ascii_lower c = (let n = of_char c :: nat in if 65 \<le> n \<and> n \<le> 90 then char_of (n + 32) else c)"

definition ascii_upper :: "char \<Rightarrow> char" where
  "ascii_upper c = (let n = of_char c :: nat in if 97 \<le> n \<and> n \<le> 122 then char_of (n - 32) else c)"

text \<open>
  A \<^verbatim>\<open>str\<close> is kept in UTF-8; \<open>utf8_decode\<close> gives its code points. A byte of the form
  \<open>10xxxxxx\<close> continues the code point begun before it.
\<close>

definition is_continuation :: "char \<Rightarrow> bool" where
  "is_continuation c = (128 \<le> (of_char c :: int) \<and> (of_char c :: int) < 192)"

definition lead_bits :: "char \<Rightarrow> int" where
  "lead_bits c =
     (let n = of_char c :: int
      in if n < 128 then n else if n < 224 then n mod 32 else if n < 240 then n mod 16
         else n mod 8)"

fun decode_from :: "int \<Rightarrow> string \<Rightarrow> int list" where
  "decode_from cp [] = [cp]"
| "decode_from cp (c # cs) =
     (if is_continuation c then decode_from (cp * 64 + of_char c mod 64) cs
      else cp # decode_from (lead_bits c) cs)"

definition utf8_decode :: "string \<Rightarrow> int list" where
  "utf8_decode s = (case s of [] \<Rightarrow> [] | c # cs \<Rightarrow> decode_from (lead_bits c) cs)"

definition hex_digit :: "int \<Rightarrow> char" where
  "hex_digit d = ''0123456789abcdef'' ! nat (d mod 16)"

fun hex_fixed :: "nat \<Rightarrow> int \<Rightarrow> string" where
  "hex_fixed 0 n = []"
| "hex_fixed (Suc w) n = hex_fixed w (n div 16) @ [hex_digit n]"

fun decimal :: "nat \<Rightarrow> string" where
  "decimal n =
     (if n < 10 then [hex_digit (int n)] else decimal (n div 10) @ [hex_digit (int (n mod 10))])"

declare decimal.simps [simp del]

text \<open>
  \<^verbatim>\<open>s.encode("latin-1")\<close> raises when a code point is above 255. \<open>latin1_error\<close> is the
  exception then, with the message of CPython: it names the first run of such code points,
  by its character when the run has one and by its positions otherwise.
\<close>

definition codec_message :: "nat \<Rightarrow> nat \<Rightarrow> int \<Rightarrow> string" where
  "codec_message start run cp =
     quoted ''latin-1'' @ '' codec can'' @ [CHR 0x27] @ ''t encode '' @
     (if run = 1 then
        ''character '' @
        quoted (if cp \<le> 65535 then [CHR 0x5C] @ ''u'' @ hex_fixed 4 cp
                else [CHR 0x5C] @ ''U'' @ hex_fixed 8 cp) @
        '' in position '' @ decimal start
      else
        ''characters in position '' @ decimal start @ ''-'' @ decimal (start + run - 1)) @
     '': ordinal not in range(256)''"

definition latin1_error :: "string \<Rightarrow> exn option" where
  "latin1_error s =
     (let cps = utf8_decode s;
          rest = dropWhile (\<lambda>cp. cp \<le> 255) cps
      in if rest = [] then None
         else Some (Exn UnicodeEncodeError
                (codec_message (length (takeWhile (\<lambda>cp. cp \<le> 255) cps))
                   (length (takeWhile (\<lambda>cp. 255 < cp) rest)) (hd rest))))"

section \<open>Regular expressions\<close>

text \<open>
  The pattern \<^verbatim>\<open>^https?://\<close> is a sequence of literal characters, one of them optional;
  \<^verbatim>\<open>re.match\<close> anchors the match at the start of the string and accepts any rest. Under
  \<^verbatim>\<open>re.I\<close> a literal of a \<^verbatim>\<open>str\<close> pattern matches its two ASCII cases and, for the
  letters i, k and s, the code points U+0130 and U+0131, U+212A, and U+017F, here in UTF-8.
\<close>

datatype atom = Lit char | Opt char

definition ignorecase_variants :: "char \<Rightarrow> string list" where
  "ignorecase_variants c =
     [[ascii_lower c], [ascii_upper c]] @
     (if ascii_lower c = CHR ''i'' then [[CHR 0xC4, CHR 0xB0], [CHR 0xC4, CHR 0xB1]] else []) @
     (if ascii_lower c = CHR ''k'' then [[CHR 0xE2, CHR 0x84, CHR 0xAA]] else []) @
     (if ascii_lower c = CHR ''s'' then [[CHR 0xC5, CHR 0xBF]] else [])"

definition strip_prefix :: "string \<Rightarrow> string \<Rightarrow> string option" where
  "strip_prefix v s = (if take (length v) s = v then Some (drop (length v) s) else None)"

fun re_match_I :: "atom list \<Rightarrow> string \<Rightarrow> bool" where
  "re_match_I [] s = True"
| "re_match_I (Lit c # r) s =
     list_ex (\<lambda>v. case strip_prefix v s of None \<Rightarrow> False | Some s' \<Rightarrow> re_match_I r s')
       (ignorecase_variants c)"
| "re_match_I (Opt c # r) s =
     (list_ex (\<lambda>v. case strip_prefix v s of None \<Rightarrow> False | Some s' \<Rightarrow> re_match_I r s')
        (ignorecase_variants c)
      \<or> re_match_I r s)"

definition scheme_pattern :: "atom list" where
  "scheme_pattern =
     [Lit CHR ''h'', Lit CHR ''t'', Lit CHR ''t'', Lit CHR ''p'', Opt CHR ''s'',
      Lit CHR '':'', Lit CHR ''/'', Lit CHR ''/'']"

section \<open>The HTTP handlers\<close>

record upload_file =
  content_type :: "string option"
  filename :: "string option"
  read :: "exn + bytes"

record http_exception =
  status_code :: int
  detail :: string

record response =
  content :: bytes
  media_type :: string
  headers :: "(string \<times> string) list"

text \<open>
  A handler returns a \<open>response\<close> (status 200) or raises an \<^verbatim>\<open>HTTPException\<close>, which
  the framework turns into the error response of that status.
\<close>

type_synonym handler_result = "event list \<times> (http_exception + response)"

text \<open>
  \<^verbatim>\<open>Response(content=avif, media_type="image/avif", headers={"Content-Disposition": v})\<close>:
  the constructor encodes the header in Latin-1 and raises when the value cannot be
  encoded; the header name and the media type are ASCII.
\<close>

definition response_init :: "bytes \<Rightarrow> string \<Rightarrow> string \<Rightarrow> exn + response" where
  "response_init body mt disposition =
     (case latin1_error disposition of
        Some e \<Rightarrow> Inl e
      | None \<Rightarrow>
          Inr \<lparr>content = body, media_type = mt,
               headers = [(''Content-Disposition'', disposition)]\<rparr>)"

definition accepted_types :: "string set" where
  "accepted_types = {''image/jpeg'', ''image/jpg'', ''image/png'', ''image/webp''}"

definition convert_file_to_avif ::
  "pillow \<Rightarrow> upload_file \<Rightarrow> int \<Rightarrow> bool \<Rightarrow> int option \<Rightarrow> int option \<Rightarrow> handler_result" where
  \<open>convert_file_to_avif lib file quality lossless width height =
     (if (case content_type file of None \<Rightarrow> True | Some ct \<Rightarrow> ct \<notin> accepted_types) then
        ([], Inl \<lparr>status_code = 415, detail = ''Only JPEG/JPG/PNG/WEBP are accepted.''\<rparr>)
      else
        (case
           bind_io (call FileRead (read file)) (\<lambda>data.
           bind_io (to_avif_bytes lib data quality lossless width height) (\<lambda>avif.
           bind_io (lift (index0 (rsplit1 (str_or (filename file) ''image'') CHR ''.''))) (\<lambda>base.
           lift (response_init avif ''image/avif''
                   (''attachment; filename="'' @ base @ ''.avif"'')))))
         of
           (t, Inl e) \<Rightarrow> (t, Inl \<lparr>status_code = 500, detail = str_exn e\<rparr>)
         | (t, Inr r) \<Rightarrow> (t, Inr r)))\<close>

text \<open>
  \<^verbatim>\<open>resp.headers.get("content-type", "").split(";")[0].strip().lower()\<close>: header names
  compare without case and the values of a repeated header are joined by a comma and a
  space; \<^verbatim>\<open>strip\<close> and \<^verbatim>\<open>lower\<close> are the library's.
\<close>

fun join_comma :: "string list \<Rightarrow> string" where
  "join_comma [] = []"
| "join_comma [v] = v"
| "join_comma (v # vs) = v @ '', '' @ join_comma vs"

definition headers_get :: "(string \<times> string) list \<Rightarrow> string \<Rightarrow> string \<Rightarrow> string" where
  "headers_get hs k d =
     (case map snd (filter (\<lambda>(k', v). map ascii_lower k' = map ascii_lower k) hs) of
        [] \<Rightarrow> d
      | vs \<Rightarrow> join_comma vs)"

definition fetched_content_type :: "httpx \<Rightarrow> httpx_response \<Rightarrow> string" where
  "fetched_content_type client resp =
     str_lower client (str_strip client (takeWhile (\<lambda>c. c \<noteq> CHR '';'')
       (headers_get (resp_headers resp) ''content-type'' [])))"

definition convert_url_to_avif ::
  "pillow \<Rightarrow> httpx \<Rightarrow> string \<Rightarrow> int \<Rightarrow> bool \<Rightarrow> int option \<Rightarrow> int option \<Rightarrow> rat
     \<Rightarrow> handler_result" where
  \<open>convert_url_to_avif lib client url quality lossless width height tmo =
     (if \<not> re_match_I scheme_pattern url then
        ([], Inl \<lparr>status_code = 400, detail = ''Invalid URL.''\<rparr>)
      else
        (let cfg = \<lparr>timeout = tmo, follow_redirects = True\<rparr> in
         case
           bind_io (call (ClientGet cfg url) (client_get client cfg url)) (\<lambda>resp.
           bind_io (call (RaiseForStatus resp) (raise_for_status client resp)) (\<lambda>_.
           bind_io (if fetched_content_type client resp \<notin> accepted_types then ret ()
                    else ret ()) (\<lambda>_.
           bind_io (to_avif_bytes lib (resp_content resp) quality lossless width height) (\<lambda>avif.
           lift (response_init avif ''image/avif'' ''attachment; filename="image.avif"'')))))
         of
           (t, Inl e) \<Rightarrow>
             if is_HTTPError e then
               (t, Inl \<lparr>status_code = 502, detail = ''Fetch failed: '' @ str_exn e\<rparr>)
             else (t, Inl \<lparr>status_code = 500, detail = str_exn e\<rparr>)
         | (t, Inr r) \<Rightarrow> (t, Inr r)))\<close>

text \<open>The liveness endpoint returns a fixed dictionary.\<close>

definition root :: "(string \<times> pyval) list" where
  "root = [(''ok'', PyBool True), (''service'', PyStr ''avif-converter''),
           (''version'', PyStr ''1.0.0'')]"

section \<open>Library contracts and an example library\<close>

text \<open>
  What the theorems below assume of Pillow where a claim depends on it: \<^verbatim>\<open>convert\<close>
  returns an image of the requested mode and of the same size; \<^verbatim>\<open>resize\<close> returns an
  image of the same mode and of the requested size; \<^verbatim>\<open>resize\<close> raises (a
  \<^verbatim>\<open>ValueError\<close>) when a requested dimension is below 1.
\<close>

definition convert_contract :: "pillow \<Rightarrow> bool" where
  "convert_contract lib =
     (\<forall>img m img'. image_convert lib img m = Inr img' \<longrightarrow> mode img' = m \<and> isize img' = isize img)"

definition resize_contract :: "pillow \<Rightarrow> bool" where
  "resize_contract lib =
     (\<forall>img sz f img'. image_resize lib img sz f = Inr img' \<longrightarrow> mode img' = mode img \<and> isize img' = sz)"

definition resize_rejects_empty :: "pillow \<Rightarrow> bool" where
  "resize_rejects_empty lib =
     (\<forall>img tw th f. tw < 1 \<or> th < 1 \<longrightarrow>
        (\<exists>e. image_resize lib img (tw, th) f = Inl e \<and> \<not> is_HTTPError e))"

text \<open>
  A small library that meets the contracts, for running the handlers on concrete requests:
  an image file is a mode letter, width and height as two bytes each, and the pixels.
\<close>

definition demo_mode :: "char \<Rightarrow> string" where
  "demo_mode c =
     (if c = CHR ''P'' then ''P'' else if c = CHR ''L'' then ''LA''
      else if c = CHR ''A'' then ''RGBA'' else ''RGB'')"

definition demo_file :: "string \<Rightarrow> nat \<Rightarrow> nat \<Rightarrow> bytes \<Rightarrow> bytes" where
  "demo_file m w h px =
     take 1 m @ [char_of (w div 256), char_of w, char_of (h div 256), char_of h] @ px"

definition demo_open :: "bytes \<Rightarrow> exn + image" where
  "demo_open d =
     (case d of
        m # w1 # w0 # h1 # h0 # px \<Rightarrow>
          Inr \<lparr>mode = demo_mode m,
               isize = (int (of_char w1 * 256 + of_char w0), int (of_char h1 * 256 + of_char h0)),
               pixels = px\<rparr>
      | _ \<Rightarrow> Inl (Exn OtherException ''cannot identify image file''))"

definition demo_resize :: "image \<Rightarrow> int \<times> int \<Rightarrow> resample \<Rightarrow> exn + image" where
  "demo_resize img sz f =
     (if fst sz < 1 \<or> snd sz < 1 then Inl (Exn ValueError ''height and width must be > 0'')
      else Inr (img\<lparr>isize := sz\<rparr>))"

definition demo_save :: "image \<Rightarrow> (string \<times> pyval) list \<Rightarrow> exn + bytes" where
  "demo_save img ps =
     Inr ((if (''lossless'', PyBool True) \<in> set ps then ''avif-lossless:'' else ''avif:'') @ pixels img)"

definition demo_pillow :: pillow where
  "demo_pillow =
     \<lparr>image_open = demo_open,
      image_convert = (\<lambda>img m. Inr (img\<lparr>mode := m\<rparr>)),
      image_resize = demo_resize,
      image_save = demo_save\<rparr>"

text \<open>Its \<^verbatim>\<open>strip\<close> and \<^verbatim>\<open>lower\<close> act on ASCII characters only.\<close>

definition is_space :: "char \<Rightarrow> bool" where
  "is_space c =
     (c \<in> {CHR 0x20, CHR 0x09, CHR 0x0A, CHR 0x0B, CHR 0x0C, CHR 0x0D,
            CHR 0x1C, CHR 0x1D, CHR 0x1E, CHR 0x1F})"

definition strip :: "string \<Rightarrow> string" where
  "strip s = rev (dropWhile is_space (rev (dropWhile is_space s)))"

definition demo_httpx :: httpx where
  "demo_httpx =
     \<lparr>client_get = (\<lambda>cfg url.
        if url = ''http://example.com/a.png'' then
          Inr \<lparr>resp_status_code = 200, resp_headers = [(''Content-Type'', ''text/html'')],
               resp_content = demo_file ''P'' 49 49 ''abc''\<rparr>
        else if url = ''http://example.com/bad'' then
          Inr \<lparr>resp_status_code = 200, resp_headers = [(''Content-Type'', ''image/png'')],
               resp_content = ''xx''\<rparr>
        else if url = ''https://example.com/missing'' then
          Inr \<lparr>resp_status_code = 404, resp_headers = [], resp_content = []\<rparr>
        else Inl (Exn HTTPError ''All connection attempts failed'')),
      raise_for_status = (\<lambda>resp.
        if 200 \<le> resp_status_code resp \<and> resp_status_code resp < 300 then Inr ()
        else Inl (Exn HTTPError ''Client error'')),
      str_strip = strip,
      str_lower = map ascii_lower\<rparr>"

section \<open>Running the conversion routine\<close>

lemma bind_io_Inl [simp]: "bind_io (t, Inl e) f = (t, Inl e)"
  by (simp add: bind_io_def)

lemma bind_io_Inr [simp]: "bind_io (t, Inr x) f = (t @ fst (f x), snd (f x))"
  by (simp add: bind_io_def split: prod.splits)

lemma demo_convert_contract: "convert_contract demo_pillow"
  by (auto simp: convert_contract_def demo_pillow_def)

lemma demo_resize_contract: "resize_contract demo_pillow"
  by (auto simp: resize_contract_def demo_pillow_def demo_resize_def split: if_splits)

lemma demo_resize_rejects_empty: "resize_rejects_empty demo_pillow"
  by (auto simp: resize_rejects_empty_def demo_pillow_def demo_resize_def)

lemma to_avif_bytes_unfold:
  "to_avif_bytes lib data q l w h =
     (case image_open lib data of
        Inl e \<Rightarrow> ([ImageOpen data], Inl e)
      | Inr img0 \<Rightarrow>
          (case normalize_mode lib img0 of
             (t1, Inl e) \<Rightarrow> (ImageOpen data # t1, Inl e)
           | (t1, Inr img) \<Rightarrow>
               (case resize_step lib img w h of
                  (t2, Inl e) \<Rightarrow> (ImageOpen data # t1 @ t2, Inl e)
                | (t2, Inr img2) \<Rightarrow>
                    (ImageOpen data # t1 @ t2 @ [ImageSave img2 (save_params q l)],
                     image_save lib img2 (save_params q l)))))"
  by (simp add: to_avif_bytes_def call_def bind_io_def save_step_def
      split: sum.splits prod.splits)

lemma normalize_mode_keep:
  "mode img = ''RGB'' \<or> mode img = ''RGBA'' \<Longrightarrow> normalize_mode lib img = ([], Inr img)"
  by (auto simp: normalize_mode_def ret_def)

lemma normalize_mode_convert:
  "mode img \<noteq> ''RGB'' \<Longrightarrow> mode img \<noteq> ''RGBA'' \<Longrightarrow>
   normalize_mode lib img = ([ImageConvert img ''RGBA''], image_convert lib img ''RGBA'')"
  by (simp add: normalize_mode_def call_def)

lemma normalize_mode_result:
  assumes "convert_contract lib" and "normalize_mode lib img = (t, Inr img')"
  shows "(mode img' = ''RGB'' \<or> mode img' = ''RGBA'') \<and> isize img' = isize img"
proof (cases "mode img = ''RGB'' \<or> mode img = ''RGBA''")
  case True
  with assms(2) show ?thesis by (auto simp: normalize_mode_keep)
next
  case False
  with assms(2) have "image_convert lib img ''RGBA'' = Inr img'"
    by (simp add: normalize_mode_convert)
  with assms(1) show ?thesis by (auto simp: convert_contract_def)
qed

lemma resize_step_none: "resize_step lib img None None = ([], Inr img)"
  by (simp add: resize_step_def truthy_def ret_def)

lemma resize_step_both:
  "tw \<noteq> 0 \<Longrightarrow> th \<noteq> 0 \<Longrightarrow>
   resize_step lib img (Some tw) (Some th) =
     ([ImageResize img (tw, th) LANCZOS], image_resize lib img (tw, th) LANCZOS)"
  by (simp add: resize_step_def truthy_def py_or_def lift_def call_def split: prod.splits)

lemma resize_step_width:
  "tw \<noteq> 0 \<Longrightarrow> isize img = (w, h) \<Longrightarrow> scale_dim h (Some tw) w = Inr th \<Longrightarrow>
   resize_step lib img (Some tw) None =
     ([ImageResize img (tw, th) LANCZOS], image_resize lib img (tw, th) LANCZOS)"
  by (simp add: resize_step_def truthy_def py_or_def lift_def call_def)

lemma resize_step_height:
  "th \<noteq> 0 \<Longrightarrow> isize img = (w, h) \<Longrightarrow> scale_dim w (Some th) h = Inr tw \<Longrightarrow>
   resize_step lib img None (Some th) =
     ([ImageResize img (tw, th) LANCZOS], image_resize lib img (tw, th) LANCZOS)"
  by (simp add: resize_step_def truthy_def py_or_def lift_def call_def)

lemma resize_step_result:
  assumes "resize_step lib img w h = (t, Inr img')"
  shows "(t = [] \<and> img' = img) \<or>
         (\<exists>sz. t = [ImageResize img sz LANCZOS] \<and> image_resize lib img sz LANCZOS = Inr img')"
  using assms
  by (auto simp: resize_step_def ret_def lift_def call_def bind_io_def
      split: if_splits prod.splits sum.splits)

lemma resize_step_events:
  "ev \<in> set (fst (resize_step lib img w h)) \<Longrightarrow> \<exists>sz. ev = ImageResize img sz LANCZOS"
  by (auto simp: resize_step_def ret_def lift_def call_def bind_io_def
      split: if_splits prod.splits sum.splits)

lemma normalize_mode_events:
  "ev \<in> set (fst (normalize_mode lib img)) \<Longrightarrow> ev = ImageConvert img ''RGBA''"
  by (auto simp: normalize_mode_def ret_def call_def split: if_splits)

lemma scale_dim_Some:
  "c \<noteq> 0 \<Longrightarrow> round_double (of_int b / of_int c) = Some r \<Longrightarrow>
   round_double (of_int a) = Some fa \<Longrightarrow> round_double (fa * r) = Some p \<Longrightarrow>
   scale_dim a (Some b) c = Inr (trunc p)"
  by (simp add: scale_dim_def true_div_def int_mul_float_def py_int_def)

lemma to_avif_bytes_saved:
  assumes "ImageSave img' ps \<in> set (fst (to_avif_bytes lib data q l w h))"
  shows "\<exists>img0 t1 img t2.
           image_open lib data = Inr img0 \<and> normalize_mode lib img0 = (t1, Inr img) \<and>
           resize_step lib img w h = (t2, Inr img') \<and> ps = save_params q l"
proof (cases "image_open lib data")
  case (Inl e)
  with assms show ?thesis by (simp add: to_avif_bytes_unfold)
next
  case opened: (Inr img0)
  obtain t1 r1 where n: "normalize_mode lib img0 = (t1, r1)" by (cases "normalize_mode lib img0")
  have ev1: "ImageSave img' ps \<notin> set t1"
    using normalize_mode_events [of "ImageSave img' ps" lib img0] n by auto
  show ?thesis
  proof (cases r1)
    case (Inl e)
    with assms opened n ev1 show ?thesis by (simp add: to_avif_bytes_unfold)
  next
    case norm: (Inr img)
    obtain t2 r2 where r: "resize_step lib img w h = (t2, r2)" by (cases "resize_step lib img w h")
    have ev2: "ImageSave img' ps \<notin> set t2"
      using resize_step_events [of "ImageSave img' ps" lib img w h] r by auto
    show ?thesis
    proof (cases r2)
      case (Inl e)
      with assms opened n norm r ev1 ev2 show ?thesis by (simp add: to_avif_bytes_unfold)
    next
      case (Inr img2)
      with assms opened n norm r ev1 ev2 show ?thesis by (simp add: to_avif_bytes_unfold)
    qed
  qed
qed

section \<open>Properties of the float arithmetic\<close>

text \<open>
  The rounding function is checked against its specification: \<open>ilog2\<close> is the binary
  exponent, the result is within half a unit in the last place of the argument, integers
  below \<open>2 ^ 53\<close> are exact, and overflow is reported exactly at \<open>2 ^ 1024\<close>.
\<close>

lemma pow2_powi: "pow2 k = 2 powi k"
  by (simp add: pow2_def power_int_def inverse_eq_divide power_one_over)

lemma pow2_pos: "0 < pow2 k"
  unfolding pow2_powi by (rule zero_less_power_int) simp

lemma pow2_add: "pow2 (a + b) = pow2 a * pow2 b"
  unfolding pow2_powi by (rule power_int_add) simp

lemma pow2_mono: "a \<le> b \<Longrightarrow> pow2 a \<le> pow2 b"
  unfolding pow2_powi by (rule power_int_increasing) simp_all

lemma ilog2_lower:
  assumes "0 < x"
  shows "pow2 (ilog2 x) \<le> x"
proof -
  obtain p q where pq: "quotient_of x = (p, q)" by (cases "quotient_of x")
  then have q: "0 < q" and x: "x = of_int p / of_int q"
    by (auto dest: quotient_of_denom_pos quotient_of_div)
  with assms have p: "0 < p" by (simp add: zero_less_divide_iff)
  let ?d = "bitlen p - bitlen q"
  show ?thesis
  proof (cases "pow2 ?d \<le> x")
    case True
    with pq show ?thesis by (simp add: ilog2_def)
  next
    case False
    have "rat_of_int (2 ^ nat (bitlen p - 1)) \<le> of_int p"
      using bitlen_bounds [OF p] by (simp only: of_int_le_iff)
    then have bp: "(2::rat) ^ nat (bitlen p - 1) \<le> of_int p" by simp
    have "rat_of_int q < of_int (2 ^ nat (bitlen q))"
      using bitlen_bounds [OF q] by (simp only: of_int_less_iff)
    then have bq: "of_int q < (2::rat) ^ nat (bitlen q)" by simp
    have bp1: "1 \<le> bitlen p" using p by (simp add: bitlen_alt_def)
    have "pow2 (?d - 1) * of_int q \<le> pow2 (?d - 1) * 2 ^ nat (bitlen q)"
      using bq pow2_pos [of "?d - 1"] by simp
    also have "\<dots> = pow2 (?d - 1) * pow2 (bitlen q)"
      using bitlen_nonneg [of q] by (simp add: pow2_def)
    also have "\<dots> = pow2 (bitlen p - 1)"
      by (simp add: pow2_add [symmetric])
    also have "\<dots> = 2 ^ nat (bitlen p - 1)"
      using bp1 by (simp add: pow2_def)
    also have "\<dots> \<le> of_int p" by (rule bp)
    finally have "pow2 (?d - 1) \<le> x"
      using q by (simp add: x pos_le_divide_eq)
    with False pq show ?thesis by (simp add: ilog2_def)
  qed
qed

lemma round_half_even_error: "\<bar>of_int (round_half_even y) - y\<bar> \<le> 1 / 2"
proof -
  have "of_int \<lfloor>y\<rfloor> \<le> y" "y < of_int \<lfloor>y\<rfloor> + 1" by linarith+
  then show ?thesis
    unfolding round_half_even_def Let_def by (auto simp: abs_le_iff)
qed

lemma round_half_even_nonneg: "0 \<le> y \<Longrightarrow> 0 \<le> round_half_even y"
  unfolding round_half_even_def Let_def by auto

lemma round_half_even_of_int: "round_half_even (of_int k) = k"
  by (simp add: round_half_even_def)

lemma ilog2_zero: "ilog2 0 = - 2"
  by code_simp

lemma ilog2_less:
  assumes "0 \<le> y" and "y < pow2 k" and "- 2 < k"
  shows "ilog2 y < k"
proof (cases "y = 0")
  case True
  with assms(3) show ?thesis by (simp add: ilog2_zero)
next
  case False
  with assms(1) have "0 < y" by simp
  then have "pow2 (ilog2 y) \<le> y" by (rule ilog2_lower)
  with assms(2) have "pow2 (ilog2 y) < pow2 k" by simp
  then show ?thesis
    using pow2_mono [of k "ilog2 y"] by (cases "ilog2 y < k") auto
qed

lemma ilog2_upper:
  assumes "0 < x"
  shows "x < pow2 (ilog2 x + 1)"
proof -
  obtain p q where pq: "quotient_of x = (p, q)" by (cases "quotient_of x")
  then have q: "0 < q" and x: "x = of_int p / of_int q"
    by (auto dest: quotient_of_denom_pos quotient_of_div)
  with assms have p: "0 < p" by (simp add: zero_less_divide_iff)
  let ?d = "bitlen p - bitlen q"
  show ?thesis
  proof (cases "pow2 ?d \<le> x")
    case True
    have "rat_of_int p < of_int (2 ^ nat (bitlen p))"
      using bitlen_bounds [OF p] by (simp only: of_int_less_iff)
    then have bp: "of_int p < (2::rat) ^ nat (bitlen p)" by simp
    have "rat_of_int (2 ^ nat (bitlen q - 1)) \<le> of_int q"
      using bitlen_bounds [OF q] by (simp only: of_int_le_iff)
    then have bq: "(2::rat) ^ nat (bitlen q - 1) \<le> of_int q" by simp
    have bq1: "1 \<le> bitlen q" using q by (simp add: bitlen_alt_def)
    have "rat_of_int p < 2 ^ nat (bitlen p)" by (rule bp)
    also have "\<dots> = pow2 (bitlen p)"
      using bitlen_nonneg [of p] by (simp add: pow2_def)
    also have "\<dots> = pow2 (?d + 1) * pow2 (bitlen q - 1)"
      by (simp add: pow2_add [symmetric])
    also have "\<dots> = pow2 (?d + 1) * 2 ^ nat (bitlen q - 1)"
      using bq1 by (simp add: pow2_def)
    also have "\<dots> \<le> pow2 (?d + 1) * of_int q"
      using bq pow2_pos [of "?d + 1"] by simp
    finally have "x < pow2 (?d + 1)"
      using q by (simp add: x pos_divide_less_eq)
    with True pq show ?thesis by (simp add: ilog2_def)
  next
    case False
    with pq show ?thesis by (simp add: ilog2_def)
  qed
qed

text \<open>\<open>ilog2\<close> is the integer part of the binary logarithm.\<close>

lemma ilog2_eq_iff:
  assumes "0 < x"
  shows "ilog2 x = k \<longleftrightarrow> pow2 k \<le> x \<and> x < pow2 (k + 1)"
proof
  assume "ilog2 x = k"
  then show "pow2 k \<le> x \<and> x < pow2 (k + 1)"
    using ilog2_lower [OF assms] ilog2_upper [OF assms] by auto
next
  assume k: "pow2 k \<le> x \<and> x < pow2 (k + 1)"
  have "pow2 (ilog2 x) < pow2 (k + 1)" using k ilog2_lower [OF assms] by simp
  then have "ilog2 x < k + 1"
    using pow2_mono [of "k + 1" "ilog2 x"] by (cases "ilog2 x < k + 1") auto
  moreover have "pow2 k < pow2 (ilog2 x + 1)" using k ilog2_upper [OF assms] by simp
  then have "k < ilog2 x + 1"
    using pow2_mono [of "ilog2 x + 1" k] by (cases "k < ilog2 x + 1") auto
  ultimately show "ilog2 x = k" by simp
qed

text \<open>The rounding overflows exactly when the rounded value reaches \<open>2 ^ 1024\<close>.\<close>

lemma round_double_None_iff:
  "round_double x = None \<longleftrightarrow>
     x \<noteq> 0 \<and>
     pow2 1024 \<le> of_int (round_half_even (\<bar>x\<bar> / pow2 (max (ilog2 \<bar>x\<bar> - 52) (- 1074))))
                    * pow2 (max (ilog2 \<bar>x\<bar> - 52) (- 1074))"
proof (cases "x = 0")
  case True
  then show ?thesis by (simp add: round_double_def)
next
  case False
  define y where
    "y = of_int (round_half_even (\<bar>x\<bar> / pow2 (max (ilog2 \<bar>x\<bar> - 52) (- 1074))))
           * pow2 (max (ilog2 \<bar>x\<bar> - 52) (- 1074))"
  have y0: "0 \<le> y"
    unfolding y_def using pow2_pos [of "max (ilog2 \<bar>x\<bar> - 52) (- 1074)"]
    by (simp add: round_half_even_nonneg)
  have "1024 \<le> ilog2 y \<longleftrightarrow> pow2 1024 \<le> y"
  proof
    assume l: "1024 \<le> ilog2 y"
    then have "y \<noteq> 0" by (auto simp: ilog2_zero)
    with y0 have pos: "0 < y" by simp
    from l have "pow2 1024 \<le> pow2 (ilog2 y)" by (rule pow2_mono)
    with ilog2_lower [OF pos] show "pow2 1024 \<le> y" by simp
  next
    assume u: "pow2 1024 \<le> y"
    then have pos: "0 < y" using pow2_pos [of 1024] by linarith
    from u ilog2_upper [OF pos] have "pow2 1024 < pow2 (ilog2 y + 1)" by simp
    then show "1024 \<le> ilog2 y"
      using pow2_mono [of "ilog2 y + 1" 1024] by (cases "1024 \<le> ilog2 y") auto
  qed
  with False show ?thesis by (simp add: round_double_def Let_def y_def)
qed

text \<open>
  Rounding a positive rational below \<open>2 ^ 1023\<close> does not overflow, and the result is
  within half a unit in the last place.
\<close>

lemma round_double_pos:
  assumes "0 < x" and "x < pow2 1023"
  shows "\<exists>y. round_double x = Some y \<and> 0 \<le> y \<and>
           \<bar>y - x\<bar> \<le> pow2 (max (ilog2 x - 52) (- 1074)) / 2"
proof -
  let ?q = "max (ilog2 x - 52) (- 1074)"
  let ?m = "round_half_even (x / pow2 ?q)"
  let ?y = "of_int ?m * pow2 ?q"
  have e: "ilog2 x < 1023"
    using assms by (intro ilog2_less) simp_all
  have q: "?q < 1023" using e by simp
  have m0: "0 \<le> ?m"
    using assms(1) pow2_pos [of ?q] by (intro round_half_even_nonneg) simp
  have "\<bar>of_int ?m - x / pow2 ?q\<bar> \<le> 1 / 2" by (rule round_half_even_error)
  then have "\<bar>of_int ?m - x / pow2 ?q\<bar> * pow2 ?q \<le> 1 / 2 * pow2 ?q"
    using pow2_pos [of ?q] by (intro mult_right_mono) simp_all
  moreover have "\<bar>of_int ?m - x / pow2 ?q\<bar> * pow2 ?q = \<bar>?y - x\<bar>"
  proof -
    have "(of_int ?m - x / pow2 ?q) * pow2 ?q = ?y - x"
      using pow2_pos [of ?q] by (simp add: left_diff_distrib)
    moreover have "\<bar>pow2 ?q\<bar> = pow2 ?q" using pow2_pos [of ?q] by simp
    ultimately show ?thesis by (metis abs_mult)
  qed
  ultimately have err: "\<bar>?y - x\<bar> \<le> pow2 ?q / 2" by simp
  have y0: "0 \<le> ?y" using m0 pow2_pos [of ?q] by simp
  have qb: "pow2 ?q \<le> pow2 1023" using q by (intro pow2_mono) simp
  have "?y - x \<le> pow2 ?q / 2" using err by linarith
  with qb assms(2) pow2_pos [of ?q] have "?y < pow2 1023 + pow2 1023" by linarith
  also have "\<dots> = pow2 1024" using pow2_add [of 1023 1] by (simp add: pow2_def)
  finally have "ilog2 ?y < 1024" using y0 by (intro ilog2_less) simp_all
  then have "round_double x = Some ?y"
    using assms(1) by (simp add: round_double_def Let_def)
  with y0 err show ?thesis by simp
qed

lemma pow2_half: "pow2 k / 2 = pow2 (k - 1)"
  using pow2_add [of "k - 1" 1] by (simp add: pow2_def)

lemma round_double_relative:
  assumes "pow2 (- 1022) \<le> x" and "x < pow2 1023"
  shows "\<exists>y. round_double x = Some y \<and> 0 \<le> y \<and> \<bar>y - x\<bar> \<le> x * pow2 (- 53)"
proof -
  have x0: "0 < x" using assms(1) pow2_pos [of "- 1022"] by linarith
  let ?q = "max (ilog2 x - 52) (- 1074)"
  obtain y where y: "round_double x = Some y" "0 \<le> y" "\<bar>y - x\<bar> \<le> pow2 ?q / 2"
    using round_double_pos [OF x0 assms(2)] by blast
  have "pow2 (?q - 1) \<le> x * pow2 (- 53)"
  proof (cases "- 1074 \<le> ilog2 x - 52")
    case True
    then have "?q - 1 = ilog2 x + (- 53)" by simp
    then have "pow2 (?q - 1) = pow2 (ilog2 x) * pow2 (- 53)"
      by (simp only: pow2_add)
    also have "\<dots> \<le> x * pow2 (- 53)"
      using ilog2_lower [OF x0] pow2_pos [of "- 53"] by (intro mult_right_mono) simp_all
    finally show ?thesis .
  next
    case False
    then have "?q - 1 = - 1022 + (- 53)" by simp
    then have "pow2 (?q - 1) = pow2 (- 1022) * pow2 (- 53)"
      by (simp only: pow2_add)
    also have "\<dots> \<le> x * pow2 (- 53)"
      using assms(1) pow2_pos [of "- 53"] by (intro mult_right_mono) simp_all
    finally show ?thesis .
  qed
  with y show ?thesis by (auto simp: pow2_half)
qed

lemma round_double_of_int:
  assumes "0 < n" and "n < 2 ^ 53"
  shows "round_double (of_int n) = Some (of_int n)"
proof -
  let ?x = "rat_of_int n"
  have x0: "0 < ?x" using assms(1) by simp
  have "?x < 2 ^ 53" using assms(2) by (metis of_int_less_iff of_int_numeral of_int_power)
  then have x53: "?x < pow2 53" by (simp add: pow2_def)
  then have e: "ilog2 ?x < 53" using x0 by (intro ilog2_less) simp_all
  let ?q = "max (ilog2 ?x - 52) (- 1074)"
  let ?k = "nat (- ?q)"
  have q: "?q \<le> 0" using e by simp
  then have pq: "pow2 ?q = 1 / 2 ^ ?k" by (cases "?q = 0") (simp_all add: pow2_def)
  then have "?x / pow2 ?q = of_int (n * 2 ^ ?k)" by simp
  then have "round_half_even (?x / pow2 ?q) = n * 2 ^ ?k"
    by (simp only: round_half_even_of_int)
  then have y: "of_int (round_half_even (?x / pow2 ?q)) * pow2 ?q = ?x"
    by (simp add: pq)
  have "ilog2 ?x < 1024" using e by simp
  with x0 y show ?thesis
    by (simp add: round_double_def Let_def)
qed

text \<open>
  For sizes below \<open>2 ^ 53\<close> the computation \<open>int(a * (b / c))\<close> raises nothing, and its
  result is the exact quotient \<open>a * b / c\<close> up to the two roundings and the truncation.
\<close>

lemma scale_dim_accuracy:
  assumes a: "0 < a" "a < 2 ^ 53" and b: "0 < b" "b < 2 ^ 53" and c: "0 < c" "c < 2 ^ 53"
  shows "\<exists>r p. round_double (of_int b / of_int c) = Some r \<and>
           round_double (of_int a) = Some (of_int a) \<and>
           round_double (of_int a * r) = Some p \<and>
           scale_dim a (Some b) c = Inr (trunc p) \<and> 0 \<le> trunc p \<and>
           \<bar>rat_of_int (trunc p) - of_int a * of_int b / of_int c\<bar>
             < 1 + of_int a * of_int b / of_int c / 2 ^ 51"
proof -
  define u where "u = pow2 (- 53)"
  define x1 where "x1 = rat_of_int b / of_int c"
  have u_pos: "0 < u" and u_half: "u \<le> 1 / 2" and u_val: "u = 1 / 2 ^ 53"
    by (simp_all add: u_def pow2_def)
  have ra: "1 \<le> rat_of_int a" "rat_of_int a < 2 ^ 53"
    using a by (simp, metis of_int_less_iff of_int_numeral of_int_power)
  have rb: "1 \<le> rat_of_int b" "rat_of_int b < 2 ^ 53"
    using b by (simp, metis of_int_less_iff of_int_numeral of_int_power)
  have rc: "1 \<le> rat_of_int c" "rat_of_int c < 2 ^ 53"
    using c by (simp, metis of_int_less_iff of_int_numeral of_int_power)
  have x1_lo: "u \<le> x1"
  proof -
    have "1 / 2 ^ 53 \<le> 1 / rat_of_int c" using rc by (simp add: frac_le)
    also have "\<dots> \<le> x1" using rb rc by (simp add: x1_def divide_right_mono)
    finally show ?thesis by (simp add: u_val)
  qed
  have x1_hi: "x1 < 2 ^ 53"
  proof -
    have "x1 \<le> rat_of_int b" using rb rc by (simp add: x1_def pos_divide_le_eq mult_left_le)
    with rb show ?thesis by simp
  qed
  have "pow2 (- 1022) \<le> u" unfolding u_def by (rule pow2_mono) simp
  with x1_lo have x1_min: "pow2 (- 1022) \<le> x1" by simp
  have "(2::rat) ^ 53 = pow2 53" by (simp add: pow2_def)
  also have "\<dots> \<le> pow2 1023" by (rule pow2_mono) simp
  finally have x1_max: "x1 < pow2 1023" using x1_hi by simp
  obtain r where r: "round_double x1 = Some r" "0 \<le> r" "\<bar>r - x1\<bar> \<le> x1 * u"
    using round_double_relative [OF x1_min x1_max] unfolding u_def by blast
  have x1_pos: "0 < x1" using x1_lo u_pos by simp
  have r_lo: "x1 / 2 \<le> r"
  proof -
    have "x1 * u \<le> x1 * (1 / 2)" using u_half x1_pos by (intro mult_left_mono) simp_all
    with r(3) show ?thesis by (simp add: abs_le_iff)
  qed
  have r_hi: "r \<le> x1 * (1 + u)" using r(3) by (simp add: abs_le_iff algebra_simps)
  define x2 where "x2 = rat_of_int a * r"
  have x2_lo: "pow2 (- 1022) \<le> x2"
  proof -
    have "pow2 (- 1022) \<le> pow2 (- 54)" by (rule pow2_mono) simp
    also have "\<dots> = u / 2" by (simp add: u_def pow2_half)
    also have "\<dots> \<le> r" using x1_lo r_lo by simp
    also have "\<dots> \<le> x2" using ra r(2) by (simp add: x2_def mult_le_cancel_right1)
    finally show ?thesis .
  qed
  have x2_hi: "x2 < pow2 1023"
  proof -
    have "x1 * (1 + u) \<le> x1 * 2" using u_half x1_pos by (intro mult_left_mono) simp_all
    with r_hi have "r \<le> x1 * 2" by simp
    with x1_hi have "r < 2 ^ 54" by simp
    with ra r(2) have "x2 < 2 ^ 53 * 2 ^ 54"
      unfolding x2_def by (intro mult_strict_mono) simp_all
    also have "\<dots> = pow2 107" by (simp add: pow2_def)
    also have "\<dots> \<le> pow2 1023" by (rule pow2_mono) simp
    finally show ?thesis .
  qed
  obtain p where p: "round_double x2 = Some p" "0 \<le> p" "\<bar>p - x2\<bar> \<le> x2 * u"
    using round_double_relative [OF x2_lo x2_hi] unfolding u_def by blast
  have run: "scale_dim a (Some b) c = Inr (trunc p)"
    using c(1) r(1) p(1) round_double_of_int [OF a]
    by (intro scale_dim_Some [where r = r and fa = "of_int a"]) (simp_all add: x1_def x2_def)
  define X where "X = rat_of_int a * of_int b / of_int c"
  have X: "X = of_int a * x1" by (simp add: X_def x1_def)
  have X0: "0 < X" using ra x1_pos by (simp add: X)
  have "\<bar>x2 - X\<bar> = of_int a * \<bar>r - x1\<bar>"
    using ra by (simp add: x2_def X abs_mult right_diff_distrib [symmetric])
  also have "\<dots> \<le> of_int a * (x1 * u)" using ra r(3) by (intro mult_left_mono) simp_all
  finally have e1: "\<bar>x2 - X\<bar> \<le> X * u" by (simp add: X mult.assoc)
  then have "x2 \<le> X * (1 + u)" by (simp add: abs_le_iff algebra_simps)
  then have "x2 * u \<le> X * (1 + u) * u" using u_pos by (intro mult_right_mono) simp_all
  with p(3) have e2: "\<bar>p - x2\<bar> \<le> X * (1 + u) * u" by simp
  have "\<bar>p - X\<bar> \<le> \<bar>p - x2\<bar> + \<bar>x2 - X\<bar>" by simp
  with e1 e2 have "\<bar>p - X\<bar> \<le> X * (u * (2 + u))" by (simp add: algebra_simps)
  also have "\<dots> < X * (u * 4)"
  proof -
    have "u * (2 + u) < u * 4" using u_pos u_half by (intro mult_strict_left_mono) simp_all
    then show ?thesis using X0 by (rule mult_strict_left_mono)
  qed
  also have "u * 4 = pow2 (- 51)" using pow2_add [of "- 53" 2] by (simp add: u_def pow2_def)
  finally have e3: "\<bar>p - X\<bar> < X * pow2 (- 51)" .
  have t: "trunc p = \<lfloor>p\<rfloor>" using p(2) by (simp add: trunc_def)
  have "\<bar>of_int \<lfloor>p\<rfloor> - p\<bar> < 1" by (simp add: abs_less_iff) linarith
  moreover have "\<bar>p - X\<bar> < X / 2 ^ 51" using e3 by (simp add: pow2_def)
  ultimately have "\<bar>of_int (trunc p) - X\<bar> < 1 + X / 2 ^ 51"
    unfolding t by linarith
  moreover have "0 \<le> trunc p" using p(2) by (simp add: t)
  ultimately show ?thesis
    using run r(1) p(1) round_double_of_int [OF a] unfolding X_def x1_def x2_def by blast
qed

section \<open>Properties of the conversion routine\<close>

text \<open>
  C1. The mode normalization leaves an image of mode RGB or RGBA unchanged, without a
  library call, and converts an image of any other mode (P and LA among them) to RGBA.
  Hence, with a \<^verbatim>\<open>convert\<close> that returns the requested mode and a \<^verbatim>\<open>resize\<close> that keeps
  the mode, every image the routine hands to the encoder has mode RGB or RGBA.
\<close>

theorem encoder_receives_rgb_or_rgba:
  "(mode img = ''RGB'' \<or> mode img = ''RGBA'' \<longrightarrow> normalize_mode lib img = ([], Inr img)) \<and>
   (mode img \<noteq> ''RGB'' \<and> mode img \<noteq> ''RGBA'' \<longrightarrow>
      normalize_mode lib img = ([ImageConvert img ''RGBA''], image_convert lib img ''RGBA'')) \<and>
   (convert_contract lib \<and> resize_contract lib \<and>
    ImageSave img' ps \<in> set (fst (to_avif_bytes lib data q l w h)) \<longrightarrow>
      mode img' = ''RGB'' \<or> mode img' = ''RGBA'')"
proof (intro conjI impI)
  assume "mode img = ''RGB'' \<or> mode img = ''RGBA''"
  then show "normalize_mode lib img = ([], Inr img)" by (rule normalize_mode_keep)
next
  assume "mode img \<noteq> ''RGB'' \<and> mode img \<noteq> ''RGBA''"
  then show "normalize_mode lib img = ([ImageConvert img ''RGBA''], image_convert lib img ''RGBA'')"
    by (simp add: normalize_mode_convert)
next
  assume a: "convert_contract lib \<and> resize_contract lib \<and>
    ImageSave img' ps \<in> set (fst (to_avif_bytes lib data q l w h))"
  then obtain img0 t1 img1 t2 where
    n: "normalize_mode lib img0 = (t1, Inr img1)" and r: "resize_step lib img1 w h = (t2, Inr img')"
    using to_avif_bytes_saved by blast
  from a n have m: "mode img1 = ''RGB'' \<or> mode img1 = ''RGBA''"
    using normalize_mode_result by blast
  from resize_step_result [OF r] a have "mode img' = mode img1"
    by (auto simp: resize_contract_def)
  with m show "mode img' = ''RGB'' \<or> mode img' = ''RGBA''" by simp
qed

lemma demo_run_width:
  "to_avif_bytes demo_pillow (demo_file ''P'' 49 49 ''abc'') 60 False (Some 7) None =
     ([ImageOpen (demo_file ''P'' 49 49 ''abc''),
       ImageConvert \<lparr>mode = ''P'', isize = (49, 49), pixels = ''abc''\<rparr> ''RGBA'',
       ImageResize \<lparr>mode = ''RGBA'', isize = (49, 49), pixels = ''abc''\<rparr> (7, 7) LANCZOS,
       ImageSave \<lparr>mode = ''RGBA'', isize = (7, 7), pixels = ''abc''\<rparr>
         [(''format'', PyStr ''AVIF''), (''quality'', PyInt 60)]],
      Inr ''avif:abc'')"
  by code_simp

theorem encoder_receives_rgb_or_rgba_witness:
  "convert_contract demo_pillow \<and> resize_contract demo_pillow \<and>
   ImageSave \<lparr>mode = ''RGBA'', isize = (7, 7), pixels = ''abc''\<rparr>
       [(''format'', PyStr ''AVIF''), (''quality'', PyInt 60)]
     \<in> set (fst (to_avif_bytes demo_pillow (demo_file ''P'' 49 49 ''abc'') 60 False (Some 7) None)) \<and>
   normalize_mode demo_pillow \<lparr>mode = ''LA'', isize = (2, 2), pixels = ''abcd''\<rparr> =
     ([ImageConvert \<lparr>mode = ''LA'', isize = (2, 2), pixels = ''abcd''\<rparr> ''RGBA''],
      image_convert demo_pillow \<lparr>mode = ''LA'', isize = (2, 2), pixels = ''abcd''\<rparr> ''RGBA'') \<and>
   normalize_mode demo_pillow \<lparr>mode = ''RGB'', isize = (2, 2), pixels = ''abcd''\<rparr> =
     ([], Inr \<lparr>mode = ''RGB'', isize = (2, 2), pixels = ''abcd''\<rparr>)"
  using encoder_receives_rgb_or_rgba [of "\<lparr>mode = ''LA'', isize = (2, 2), pixels = ''abcd''\<rparr>"
      demo_pillow "\<lparr>mode = ''RGBA'', isize = (7, 7), pixels = ''abc''\<rparr>"
      "[(''format'', PyStr ''AVIF''), (''quality'', PyInt 60)]" "demo_file ''P'' 49 49 ''abc''" 60 False "Some 7" None]
    encoder_receives_rgb_or_rgba [of "\<lparr>mode = ''RGB'', isize = (2, 2), pixels = ''abcd''\<rparr>"
      demo_pillow]
    demo_convert_contract demo_resize_contract
  by (simp add: demo_run_width)

lemma demo_open_800: "image_open demo_pillow (demo_file ''L'' 800 600 ''abc'') =
   Inr \<lparr>mode = ''LA'', isize = (800, 600), pixels = ''abc''\<rparr>"
  by code_simp

lemma normalize_mode_size:
  "convert_contract lib \<Longrightarrow> normalize_mode lib img0 = (t1, Inr img) \<Longrightarrow> isize img = isize img0"
  using normalize_mode_result by blast

text \<open>
  C2. With one dimension supplied, the routine calls resize with the supplied dimension
  as it is and the other one computed from the size \<open>(w, h)\<close> of the image: for a width
  \<open>tw\<close> alone the height is \<open>int(h * (tw / w))\<close>, for a height \<open>th\<close> alone the width is
  \<open>int(w * (th / h))\<close>, the quotient and the product each rounded to a double and the
  result truncated. What resize returns is handed to the encoder. For an image and a
  requested dimension \<open>d\<close> below \<open>2 ^ 53\<close> the computation raises nothing, and its result
  differs from the exact quotient \<open>h * d / w\<close> by less than \<open>1 + (h * d / w) / 2 ^ 51\<close>.
\<close>

theorem proportional_resize_truncates:
  assumes "image_open lib data = Inr img0" and "normalize_mode lib img0 = (t1, Inr img)"
    and "convert_contract lib" and "isize img0 = (w, h)"
  shows
  "(tw \<noteq> 0 \<and> w \<noteq> 0 \<and> round_double (of_int tw / of_int w) = Some r \<and>
    round_double (of_int h) = Some fh \<and> round_double (fh * r) = Some p \<longrightarrow>
      to_avif_bytes lib data q l (Some tw) None =
        bind_io (ImageOpen data # t1 @ [ImageResize img (tw, trunc p) LANCZOS],
                 image_resize lib img (tw, trunc p) LANCZOS)
                (save_step lib q l)) \<and>
   (th \<noteq> 0 \<and> h \<noteq> 0 \<and> round_double (of_int th / of_int h) = Some r' \<and>
    round_double (of_int w) = Some fw \<and> round_double (fw * r') = Some p' \<longrightarrow>
      to_avif_bytes lib data q l None (Some th) =
        bind_io (ImageOpen data # t1 @ [ImageResize img (trunc p', th) LANCZOS],
                 image_resize lib img (trunc p', th) LANCZOS)
                (save_step lib q l)) \<and>
   (0 < w \<and> w < 2 ^ 53 \<and> 0 < h \<and> h < 2 ^ 53 \<and> 0 < d \<and> d < 2 ^ 53 \<longrightarrow>
      (\<exists>r p. round_double (of_int d / of_int w) = Some r \<and>
         round_double (of_int h) = Some (of_int h) \<and> round_double (of_int h * r) = Some p \<and>
         0 \<le> trunc p \<and>
         \<bar>rat_of_int (trunc p) - of_int h * of_int d / of_int w\<bar>
           < 1 + of_int h * of_int d / of_int w / 2 ^ 51) \<and>
      (\<exists>r p. round_double (of_int d / of_int h) = Some r \<and>
         round_double (of_int w) = Some (of_int w) \<and> round_double (of_int w * r) = Some p \<and>
         0 \<le> trunc p \<and>
         \<bar>rat_of_int (trunc p) - of_int w * of_int d / of_int h\<bar>
           < 1 + of_int w * of_int d / of_int h / 2 ^ 51))"
proof -
  have sz: "isize img = (w, h)"
    using assms normalize_mode_size by metis
  show ?thesis
  proof (intro conjI impI)
    assume "0 < w \<and> w < 2 ^ 53 \<and> 0 < h \<and> h < 2 ^ 53 \<and> 0 < d \<and> d < 2 ^ 53"
    then show "\<exists>r p. round_double (of_int d / of_int w) = Some r \<and>
         round_double (of_int h) = Some (of_int h) \<and> round_double (of_int h * r) = Some p \<and>
         0 \<le> trunc p \<and>
         \<bar>rat_of_int (trunc p) - of_int h * of_int d / of_int w\<bar>
           < 1 + of_int h * of_int d / of_int w / 2 ^ 51"
      using scale_dim_accuracy [of h d w] by blast
  next
    assume "0 < w \<and> w < 2 ^ 53 \<and> 0 < h \<and> h < 2 ^ 53 \<and> 0 < d \<and> d < 2 ^ 53"
    then show "\<exists>r p. round_double (of_int d / of_int h) = Some r \<and>
         round_double (of_int w) = Some (of_int w) \<and> round_double (of_int w * r) = Some p \<and>
         0 \<le> trunc p \<and>
         \<bar>rat_of_int (trunc p) - of_int w * of_int d / of_int h\<bar>
           < 1 + of_int w * of_int d / of_int h / 2 ^ 51"
      using scale_dim_accuracy [of w d h] by blast
  next
    assume a: "tw \<noteq> 0 \<and> w \<noteq> 0 \<and> round_double (of_int tw / of_int w) = Some r \<and>
      round_double (of_int h) = Some fh \<and> round_double (fh * r) = Some p"
    then have "scale_dim h (Some tw) w = Inr (trunc p)"
      by (simp add: scale_dim_Some)
    with a sz have "resize_step lib img (Some tw) None =
        ([ImageResize img (tw, trunc p) LANCZOS], image_resize lib img (tw, trunc p) LANCZOS)"
      by (simp add: resize_step_width)
    with assms(1,2) show "to_avif_bytes lib data q l (Some tw) None =
        bind_io (ImageOpen data # t1 @ [ImageResize img (tw, trunc p) LANCZOS],
                 image_resize lib img (tw, trunc p) LANCZOS) (save_step lib q l)"
      by (simp add: to_avif_bytes_unfold bind_io_def save_step_def call_def split: sum.splits)
  next
    assume a: "th \<noteq> 0 \<and> h \<noteq> 0 \<and> round_double (of_int th / of_int h) = Some r' \<and>
      round_double (of_int w) = Some fw \<and> round_double (fw * r') = Some p'"
    then have "scale_dim w (Some th) h = Inr (trunc p')"
      by (simp add: scale_dim_Some)
    with a sz have "resize_step lib img None (Some th) =
        ([ImageResize img (trunc p', th) LANCZOS], image_resize lib img (trunc p', th) LANCZOS)"
      by (simp add: resize_step_height)
    with assms(1,2) show "to_avif_bytes lib data q l None (Some th) =
        bind_io (ImageOpen data # t1 @ [ImageResize img (trunc p', th) LANCZOS],
                 image_resize lib img (trunc p', th) LANCZOS) (save_step lib q l)"
      by (simp add: to_avif_bytes_unfold bind_io_def save_step_def call_def split: sum.splits)
  qed
qed

lemma demo_normalize_800:
  "normalize_mode demo_pillow \<lparr>mode = ''LA'', isize = (800, 600), pixels = ''abc''\<rparr> =
     ([ImageConvert \<lparr>mode = ''LA'', isize = (800, 600), pixels = ''abc''\<rparr> ''RGBA''],
      Inr \<lparr>mode = ''RGBA'', isize = (800, 600), pixels = ''abc''\<rparr>)"
  by code_simp

lemma round_double_examples:
  "round_double (1 / 2) = Some (1 / 2)"
  "round_double 600 = Some 600"
  "round_double 300 = Some 300"
  "round_double 800 = Some 800"
  "round_double 400 = Some 400"
  "trunc 300 = 300" "trunc 400 = 400"
  by code_simp+

theorem proportional_resize_truncates_witness:
  "to_avif_bytes demo_pillow (demo_file ''L'' 800 600 ''abc'') 60 False (Some 400) None =
     ([ImageOpen (demo_file ''L'' 800 600 ''abc''),
       ImageConvert \<lparr>mode = ''LA'', isize = (800, 600), pixels = ''abc''\<rparr> ''RGBA'',
       ImageResize \<lparr>mode = ''RGBA'', isize = (800, 600), pixels = ''abc''\<rparr> (400, 300) LANCZOS,
       ImageSave \<lparr>mode = ''RGBA'', isize = (400, 300), pixels = ''abc''\<rparr> (save_params 60 False)],
      Inr ''avif:abc'') \<and>
   to_avif_bytes demo_pillow (demo_file ''L'' 800 600 ''abc'') 60 False None (Some 300) =
     ([ImageOpen (demo_file ''L'' 800 600 ''abc''),
       ImageConvert \<lparr>mode = ''LA'', isize = (800, 600), pixels = ''abc''\<rparr> ''RGBA'',
       ImageResize \<lparr>mode = ''RGBA'', isize = (800, 600), pixels = ''abc''\<rparr> (400, 300) LANCZOS,
       ImageSave \<lparr>mode = ''RGBA'', isize = (400, 300), pixels = ''abc''\<rparr> (save_params 60 False)],
      Inr ''avif:abc'')"
proof -
  let ?img = "\<lparr>mode = ''RGBA'', isize = (800, 600), pixels = ''abc''\<rparr>"
  let ?pre = "[ImageOpen (demo_file ''L'' 800 600 ''abc''),
    ImageConvert \<lparr>mode = ''LA'', isize = (800, 600), pixels = ''abc''\<rparr> ''RGBA'',
    ImageResize ?img (400, 300) LANCZOS]"
  have "to_avif_bytes demo_pillow (demo_file ''L'' 800 600 ''abc'') 60 False (Some 400) None =
      bind_io (?pre, image_resize demo_pillow ?img (400, 300) LANCZOS)
        (save_step demo_pillow 60 False) \<and>
    to_avif_bytes demo_pillow (demo_file ''L'' 800 600 ''abc'') 60 False None (Some 300) =
      bind_io (?pre, image_resize demo_pillow ?img (400, 300) LANCZOS)
        (save_step demo_pillow 60 False)"
    using proportional_resize_truncates [OF demo_open_800 demo_normalize_800
        demo_convert_contract, of 800 600 400 "1 / 2" 600 300 60 False 300 "1 / 2" 800 400 400]
    by (simp add: round_double_examples)
  then show ?thesis
    by (simp add: demo_pillow_def demo_resize_def demo_save_def save_step_def call_def
        save_params_def)
qed

text \<open>
  C3. With both dimensions supplied the routine calls resize with exactly that pair,
  whatever the size of the image; with neither supplied it makes no resize call and hands
  the normalized image, which has the size of the decoded one, to the encoder.
\<close>

theorem resize_exact_or_absent:
  assumes "image_open lib data = Inr img0" and "normalize_mode lib img0 = (t1, Inr img)"
  shows
  "(tw \<noteq> 0 \<and> th \<noteq> 0 \<longrightarrow>
      to_avif_bytes lib data q l (Some tw) (Some th) =
        bind_io (ImageOpen data # t1 @ [ImageResize img (tw, th) LANCZOS],
                 image_resize lib img (tw, th) LANCZOS)
                (save_step lib q l)) \<and>
   to_avif_bytes lib data q l None None =
     (ImageOpen data # t1 @ [ImageSave img (save_params q l)],
      image_save lib img (save_params q l)) \<and>
   (convert_contract lib \<longrightarrow> isize img = isize img0)"
proof (intro conjI impI)
  assume "tw \<noteq> 0 \<and> th \<noteq> 0"
  then have "resize_step lib img (Some tw) (Some th) =
      ([ImageResize img (tw, th) LANCZOS], image_resize lib img (tw, th) LANCZOS)"
    by (simp add: resize_step_both)
  with assms show "to_avif_bytes lib data q l (Some tw) (Some th) =
      bind_io (ImageOpen data # t1 @ [ImageResize img (tw, th) LANCZOS],
               image_resize lib img (tw, th) LANCZOS) (save_step lib q l)"
    by (simp add: to_avif_bytes_unfold bind_io_def save_step_def call_def split: sum.splits)
next
  from assms show "to_avif_bytes lib data q l None None =
      (ImageOpen data # t1 @ [ImageSave img (save_params q l)],
       image_save lib img (save_params q l))"
    by (simp add: to_avif_bytes_unfold resize_step_none)
next
  assume "convert_contract lib"
  then show "isize img = isize img0" using assms(2) by (rule normalize_mode_size)
qed

theorem resize_exact_or_absent_witness:
  "to_avif_bytes demo_pillow (demo_file ''L'' 800 600 ''abc'') 60 False (Some 10) (Some 90) =
     ([ImageOpen (demo_file ''L'' 800 600 ''abc''),
       ImageConvert \<lparr>mode = ''LA'', isize = (800, 600), pixels = ''abc''\<rparr> ''RGBA'',
       ImageResize \<lparr>mode = ''RGBA'', isize = (800, 600), pixels = ''abc''\<rparr> (10, 90) LANCZOS,
       ImageSave \<lparr>mode = ''RGBA'', isize = (10, 90), pixels = ''abc''\<rparr> (save_params 60 False)],
      Inr ''avif:abc'') \<and>
   to_avif_bytes demo_pillow (demo_file ''L'' 800 600 ''abc'') 60 False None None =
     ([ImageOpen (demo_file ''L'' 800 600 ''abc''),
       ImageConvert \<lparr>mode = ''LA'', isize = (800, 600), pixels = ''abc''\<rparr> ''RGBA'',
       ImageSave \<lparr>mode = ''RGBA'', isize = (800, 600), pixels = ''abc''\<rparr> (save_params 60 False)],
      Inr ''avif:abc'')"
  using resize_exact_or_absent [OF demo_open_800 demo_normalize_800, of 10 90 60 False]
    demo_convert_contract
  by (simp add: demo_pillow_def demo_resize_def demo_save_def save_step_def call_def
      save_params_def)

text \<open>
  C4. With lossless set the encoder is called with the parameters format and lossless
  only, and the quality has no influence: the routine, and both handlers, perform the same
  calls and return the same result for any two qualities.
\<close>

theorem lossless_ignores_quality:
  "to_avif_bytes lib data q1 True w h = to_avif_bytes lib data q2 True w h \<and>
   convert_file_to_avif lib file q1 True w h = convert_file_to_avif lib file q2 True w h \<and>
   convert_url_to_avif lib client url q1 True w h tmo =
     convert_url_to_avif lib client url q2 True w h tmo \<and>
   (ImageSave img ps \<in> set (fst (to_avif_bytes lib data q1 True w h)) \<longrightarrow>
      ps = [(''format'', PyStr ''AVIF''), (''lossless'', PyBool True)])"
proof -
  have sp: "save_params q True = [(''format'', PyStr ''AVIF''), (''lossless'', PyBool True)]" for q
    by (simp add: save_params_def)
  have eq: "to_avif_bytes lib d q1 True w h = to_avif_bytes lib d q2 True w h" for d
    by (simp add: to_avif_bytes_def save_step_def sp)
  have "ImageSave img ps \<in> set (fst (to_avif_bytes lib data q1 True w h)) \<longrightarrow>
      ps = [(''format'', PyStr ''AVIF''), (''lossless'', PyBool True)]"
    using to_avif_bytes_saved [of img ps lib data q1 True w h] sp by auto
  then show ?thesis
    using eq by (simp add: convert_file_to_avif_def convert_url_to_avif_def)
qed

lemma demo_run_lossless:
  "to_avif_bytes demo_pillow (demo_file ''A'' 2 2 ''abcd'') 1 True None None =
     ([ImageOpen (demo_file ''A'' 2 2 ''abcd''),
       ImageSave \<lparr>mode = ''RGBA'', isize = (2, 2), pixels = ''abcd''\<rparr>
         [(''format'', PyStr ''AVIF''), (''lossless'', PyBool True)]],
      Inr ''avif-lossless:abcd'')"
  by code_simp

theorem lossless_ignores_quality_witness:
  "to_avif_bytes demo_pillow (demo_file ''A'' 2 2 ''abcd'') 100 True None None =
     ([ImageOpen (demo_file ''A'' 2 2 ''abcd''),
       ImageSave \<lparr>mode = ''RGBA'', isize = (2, 2), pixels = ''abcd''\<rparr>
         [(''format'', PyStr ''AVIF''), (''lossless'', PyBool True)]],
      Inr ''avif-lossless:abcd'')"
  using lossless_ignores_quality [of demo_pillow "demo_file ''A'' 2 2 ''abcd''" 1 None None 100]
  by (simp add: demo_run_lossless)

text \<open>
  C5. An upload whose declared content type is absent or not one of image/jpeg,
  image/jpg, image/png, image/webp is answered 415 with the fixed message, and the handler
  has performed no call: the body is not read and the conversion routine is not entered.
  With an accepted type the first call is the read of the body.
\<close>

theorem upload_rejects_unsupported_type:
  "(content_type file \<notin> {Some ''image/jpeg'', Some ''image/jpg'', Some ''image/png'',
        Some ''image/webp''} \<longrightarrow>
      convert_file_to_avif lib file q l w h =
        ([], Inl \<lparr>status_code = 415, detail = ''Only JPEG/JPG/PNG/WEBP are accepted.''\<rparr>)) \<and>
   (content_type file \<in> {Some ''image/jpeg'', Some ''image/jpg'', Some ''image/png'',
        Some ''image/webp''} \<longrightarrow>
      (\<exists>t r. convert_file_to_avif lib file q l w h = (FileRead # t, r)))"
  by (cases "content_type file")
     (auto simp: convert_file_to_avif_def accepted_types_def call_def bind_io_def lift_def
       split: sum.splits prod.splits)

theorem upload_rejects_unsupported_type_witness:
  "convert_file_to_avif demo_pillow
     \<lparr>content_type = Some ''text/plain'', filename = Some ''notes.txt'',
      read = Inr (demo_file ''A'' 2 2 ''abcd'')\<rparr> 60 False None None =
     ([], Inl \<lparr>status_code = 415, detail = ''Only JPEG/JPG/PNG/WEBP are accepted.''\<rparr>)"
  using upload_rejects_unsupported_type [of
      "\<lparr>content_type = Some ''text/plain'', filename = Some ''notes.txt'',
        read = Inr (demo_file ''A'' 2 2 ''abcd'')\<rparr>" demo_pillow 60 False None None]
  by simp

section \<open>Properties of the handlers\<close>

lemma strip_prefix_Some: "strip_prefix v s = Some s' \<longleftrightarrow> s = v @ s'"
  by (auto simp: strip_prefix_def) (metis append_take_drop_id)

lemma re_match_I_Lit:
  "re_match_I (Lit c # r) s \<longleftrightarrow>
     (\<exists>v \<in> set (ignorecase_variants c). \<exists>s'. s = v @ s' \<and> re_match_I r s')"
  by (auto simp: list_ex_iff strip_prefix_Some split: option.splits)

lemma re_match_I_Opt:
  "re_match_I (Opt c # r) s \<longleftrightarrow>
     (\<exists>v \<in> set (ignorecase_variants c). \<exists>s'. s = v @ s' \<and> re_match_I r s') \<or> re_match_I r s"
  using re_match_I_Lit [of c r s] by simp

lemma scheme_variants:
  "ignorecase_variants CHR ''h'' = [''h'', ''H'']"
  "ignorecase_variants CHR ''t'' = [''t'', ''T'']"
  "ignorecase_variants CHR ''p'' = [''p'', ''P'']"
  "ignorecase_variants CHR ''s'' = [''s'', ''S'', [CHR 0xC5, CHR 0xBF]]"
  "ignorecase_variants CHR '':'' = ['':'', '':'']"
  "ignorecase_variants CHR ''/'' = [''/'', ''/'']"
  by code_simp+

lemma match_letter:
  assumes "ignorecase_variants x = [[lo], [up]]"
  shows "re_match_I (Lit x # r) s \<longleftrightarrow> (\<exists>a s'. s = a # s' \<and> a \<in> {lo, up} \<and> re_match_I r s')"
  unfolding re_match_I_Lit assms by auto

lemma match_scheme_tail:
  "re_match_I [Lit CHR '':'', Lit CHR ''/'', Lit CHR ''/''] s \<longleftrightarrow> (\<exists>rest. s = ''://'' @ rest)"
  unfolding match_letter [OF scheme_variants(5)] match_letter [OF scheme_variants(6)]
  by auto

lemma match_optional_s:
  "re_match_I (Opt CHR ''s'' # r) s \<longleftrightarrow>
     (\<exists>x \<in> {[], ''s'', ''S'', [CHR 0xC5, CHR 0xBF]}. \<exists>s'. s = x @ s' \<and> re_match_I r s')"
  unfolding re_match_I_Opt scheme_variants by auto

lemma regroup_letters:
  "(\<exists>a s1. s = a # s1 \<and> a \<in> A \<and> (\<exists>b s2. s1 = b # s2 \<and> b \<in> B \<and>
      (\<exists>c s3. s2 = c # s3 \<and> c \<in> C \<and> (\<exists>d s4. s3 = d # s4 \<and> d \<in> D \<and> P s4)))) \<longleftrightarrow>
   (\<exists>a b c d s'. s = [a, b, c, d] @ s' \<and> a \<in> A \<and> b \<in> B \<and> c \<in> C \<and> d \<in> D \<and> P s')"
  by auto

lemma match_http:
  "re_match_I (Lit CHR ''h'' # Lit CHR ''t'' # Lit CHR ''t'' # Lit CHR ''p'' # r) s \<longleftrightarrow>
     (\<exists>a b c d s'. s = [a, b, c, d] @ s' \<and>
        a \<in> {CHR ''h'', CHR ''H''} \<and> b \<in> {CHR ''t'', CHR ''T''} \<and>
        c \<in> {CHR ''t'', CHR ''T''} \<and> d \<in> {CHR ''p'', CHR ''P''} \<and> re_match_I r s')"
  unfolding match_letter [OF scheme_variants(1)] match_letter [OF scheme_variants(2)]
    match_letter [OF scheme_variants(3)]
  by (rule regroup_letters)

lemma regroup_prefix:
  "(\<exists>a b c d s'. url = [a, b, c, d] @ s' \<and> a \<in> A \<and> b \<in> B \<and> c \<in> C \<and> d \<in> D \<and>
      (\<exists>x \<in> S. \<exists>s''. s' = x @ s'' \<and> (\<exists>rest. s'' = t @ rest))) \<longleftrightarrow>
   (\<exists>a b c d s rest. url = [a, b, c, d] @ s @ t @ rest \<and>
      a \<in> A \<and> b \<in> B \<and> c \<in> C \<and> d \<in> D \<and> s \<in> S)"
  by blast

lemma scheme_pattern_match:
  "re_match_I scheme_pattern url \<longleftrightarrow>
     (\<exists>a b c d s rest. url = [a, b, c, d] @ s @ ''://'' @ rest \<and>
        a \<in> {CHR ''h'', CHR ''H''} \<and> b \<in> {CHR ''t'', CHR ''T''} \<and>
        c \<in> {CHR ''t'', CHR ''T''} \<and> d \<in> {CHR ''p'', CHR ''P''} \<and>
        s \<in> {[], ''s'', ''S'', [CHR 0xC5, CHR 0xBF]})"
  unfolding scheme_pattern_def match_http match_optional_s match_scheme_tail
  by (rule regroup_prefix)

lemma decode_from_ascii:
  "\<forall>c \<in> set cs. (of_char c :: int) < 128 \<Longrightarrow>
   decode_from cp cs = cp # map of_char cs"
  by (induction cs arbitrary: cp) (auto simp: is_continuation_def lead_bits_def)

lemma utf8_decode_ascii:
  "\<forall>c \<in> set s. (of_char c :: int) < 128 \<Longrightarrow> utf8_decode s = map of_char s"
  by (cases s) (simp_all add: utf8_decode_def decode_from_ascii lead_bits_def)

text \<open>A header of ASCII characters is always encoded.\<close>

lemma latin1_error_ascii:
  assumes "\<forall>c \<in> set s. (of_char c :: int) < 128"
  shows "latin1_error s = None"
proof -
  have "\<forall>cp \<in> set (utf8_decode s). cp \<le> 255"
    using assms by (auto simp: utf8_decode_ascii)
  then have "dropWhile (\<lambda>cp. cp \<le> 255) (utf8_decode s) = []"
    by simp
  then show ?thesis by (simp add: latin1_error_def)
qed

lemma latin1_error_fixed:
  \<open>latin1_error ''attachment; filename="image.avif"'' = None\<close>
  \<open>latin1_error ''attachment; filename=".avif"'' = None\<close>
  by code_simp+

lemma response_init_image:
  \<open>response_init avif ''image/avif'' ''attachment; filename="image.avif"'' =
     Inr \<lparr>content = avif, media_type = ''image/avif'',
          headers = [(''Content-Disposition'', ''attachment; filename="image.avif"'')]\<rparr>\<close>
  by (simp add: response_init_def latin1_error_fixed)

lemma convert_url_to_avif_unfold:
  assumes "re_match_I scheme_pattern url"
  shows \<open>convert_url_to_avif lib client url q l w h tmo =
     (case client_get client \<lparr>timeout = tmo, follow_redirects = True\<rparr> url of
        Inl e \<Rightarrow>
          ([ClientGet \<lparr>timeout = tmo, follow_redirects = True\<rparr> url],
           Inl (if is_HTTPError e
                then \<lparr>status_code = 502, detail = ''Fetch failed: '' @ str_exn e\<rparr>
                else \<lparr>status_code = 500, detail = str_exn e\<rparr>))
      | Inr resp \<Rightarrow>
          (case raise_for_status client resp of
             Inl e \<Rightarrow>
               ([ClientGet \<lparr>timeout = tmo, follow_redirects = True\<rparr> url, RaiseForStatus resp],
                Inl (if is_HTTPError e
                     then \<lparr>status_code = 502, detail = ''Fetch failed: '' @ str_exn e\<rparr>
                     else \<lparr>status_code = 500, detail = str_exn e\<rparr>))
           | Inr u \<Rightarrow>
               (case to_avif_bytes lib (resp_content resp) q l w h of
                  (t, Inl e) \<Rightarrow>
                    (ClientGet \<lparr>timeout = tmo, follow_redirects = True\<rparr> url
                       # RaiseForStatus resp # t,
                     Inl (if is_HTTPError e
                          then \<lparr>status_code = 502, detail = ''Fetch failed: '' @ str_exn e\<rparr>
                          else \<lparr>status_code = 500, detail = str_exn e\<rparr>))
                | (t, Inr avif) \<Rightarrow>
                    (ClientGet \<lparr>timeout = tmo, follow_redirects = True\<rparr> url
                       # RaiseForStatus resp # t,
                     Inr \<lparr>content = avif, media_type = ''image/avif'',
                          headers = [(''Content-Disposition'',
                                      ''attachment; filename="image.avif"'')]\<rparr>))))\<close>
  using assms
  by (simp add: convert_url_to_avif_def call_def ret_def lift_def bind_io_def
      response_init_image split: sum.splits prod.splits)

lemma to_avif_bytes_opens:
  "\<exists>t r. to_avif_bytes lib data q l w h = (ImageOpen data # t, r)"
  by (simp add: to_avif_bytes_unfold split: sum.splits prod.splits)

text \<open>
  C6. A URL that the pattern \<^verbatim>\<open>^https?://\<close> does not match, case ignored, is answered 400
  and the handler has performed no call. A URL that it matches passes: the first call is
  the GET of that URL and the answer is not a 400. The pattern matches exactly the strings
  that begin with http, in any mix of cases, then optionally s, S or U+017F, then ://.
\<close>

theorem url_scheme_check:
  "(\<not> re_match_I scheme_pattern url \<longrightarrow>
      convert_url_to_avif lib client url q l w h tmo =
        ([], Inl \<lparr>status_code = 400, detail = ''Invalid URL.''\<rparr>)) \<and>
   (re_match_I scheme_pattern url \<longrightarrow>
      (\<exists>t r. convert_url_to_avif lib client url q l w h tmo =
          (ClientGet \<lparr>timeout = tmo, follow_redirects = True\<rparr> url # t, r) \<and>
          (\<forall>x. r = Inl x \<longrightarrow> status_code x \<noteq> 400))) \<and>
   (re_match_I scheme_pattern url \<longleftrightarrow>
      (\<exists>a b c d s rest. url = [a, b, c, d] @ s @ ''://'' @ rest \<and>
         a \<in> {CHR ''h'', CHR ''H''} \<and> b \<in> {CHR ''t'', CHR ''T''} \<and>
         c \<in> {CHR ''t'', CHR ''T''} \<and> d \<in> {CHR ''p'', CHR ''P''} \<and>
         s \<in> {[], ''s'', ''S'', [CHR 0xC5, CHR 0xBF]}))"
proof (intro conjI impI)
  assume "\<not> re_match_I scheme_pattern url"
  then show "convert_url_to_avif lib client url q l w h tmo =
      ([], Inl \<lparr>status_code = 400, detail = ''Invalid URL.''\<rparr>)"
    by (simp add: convert_url_to_avif_def)
next
  assume "re_match_I scheme_pattern url"
  then show "\<exists>t r. convert_url_to_avif lib client url q l w h tmo =
      (ClientGet \<lparr>timeout = tmo, follow_redirects = True\<rparr> url # t, r) \<and>
      (\<forall>x. r = Inl x \<longrightarrow> status_code x \<noteq> 400)"
    by (simp add: convert_url_to_avif_unfold split: sum.splits prod.splits)
next
  show "re_match_I scheme_pattern url \<longleftrightarrow>
      (\<exists>a b c d s rest. url = [a, b, c, d] @ s @ ''://'' @ rest \<and>
         a \<in> {CHR ''h'', CHR ''H''} \<and> b \<in> {CHR ''t'', CHR ''T''} \<and>
         c \<in> {CHR ''t'', CHR ''T''} \<and> d \<in> {CHR ''p'', CHR ''P''} \<and>
         s \<in> {[], ''s'', ''S'', [CHR 0xC5, CHR 0xBF]})"
    by (rule scheme_pattern_match)
qed

lemma demo_scheme_examples:
  "\<not> re_match_I scheme_pattern ''ftp://example.com/x.png''"
  "re_match_I scheme_pattern ''HTTPS://example.com/missing''"
  "\<not> re_match_I scheme_pattern '' http://example.com/a.png''"
  by code_simp+

lemma demo_url_missing:
  "convert_url_to_avif demo_pillow demo_httpx ''HTTPS://example.com/missing'' 60 False None None 20 =
     ([ClientGet \<lparr>timeout = 20, follow_redirects = True\<rparr> ''HTTPS://example.com/missing''],
      Inl \<lparr>status_code = 502, detail = ''Fetch failed: All connection attempts failed''\<rparr>)"
  by code_simp

theorem url_scheme_check_witness:
  "convert_url_to_avif demo_pillow demo_httpx ''ftp://example.com/x.png'' 60 False None None 20 =
     ([], Inl \<lparr>status_code = 400, detail = ''Invalid URL.''\<rparr>) \<and>
   convert_url_to_avif demo_pillow demo_httpx ''HTTPS://example.com/missing'' 60 False None None 20 =
     ([ClientGet \<lparr>timeout = 20, follow_redirects = True\<rparr> ''HTTPS://example.com/missing''],
      Inl \<lparr>status_code = 502, detail = ''Fetch failed: All connection attempts failed''\<rparr>)"
  using url_scheme_check [of "''ftp://example.com/x.png''" demo_pillow demo_httpx 60 False None None 20]
    url_scheme_check [of "''HTTPS://example.com/missing''" demo_pillow demo_httpx 60 False None None 20]
  by (simp add: demo_scheme_examples demo_url_missing)

text \<open>
  C7. In the URL handler an \<^verbatim>\<open>httpx.HTTPError\<close> raised by the GET or by
  \<^verbatim>\<open>raise_for_status\<close> is answered 502 with the detail "Fetch failed: " followed by the
  message of the error. After a successful fetch, an exception of any other class raised
  by the conversion routine is answered 500 with its message as the detail.
\<close>

theorem url_handler_error_mapping:
  assumes "re_match_I scheme_pattern url"
  shows
  "(client_get client \<lparr>timeout = tmo, follow_redirects = True\<rparr> url = Inl e \<and> is_HTTPError e \<longrightarrow>
      convert_url_to_avif lib client url q l w h tmo =
        ([ClientGet \<lparr>timeout = tmo, follow_redirects = True\<rparr> url],
         Inl \<lparr>status_code = 502, detail = ''Fetch failed: '' @ str_exn e\<rparr>)) \<and>
   (client_get client \<lparr>timeout = tmo, follow_redirects = True\<rparr> url = Inr resp \<and>
    raise_for_status client resp = Inl e \<and> is_HTTPError e \<longrightarrow>
      convert_url_to_avif lib client url q l w h tmo =
        ([ClientGet \<lparr>timeout = tmo, follow_redirects = True\<rparr> url, RaiseForStatus resp],
         Inl \<lparr>status_code = 502, detail = ''Fetch failed: '' @ str_exn e\<rparr>)) \<and>
   (client_get client \<lparr>timeout = tmo, follow_redirects = True\<rparr> url = Inr resp \<and>
    raise_for_status client resp = Inr () \<and>
    to_avif_bytes lib (resp_content resp) q l w h = (t, Inl e) \<and> \<not> is_HTTPError e \<longrightarrow>
      convert_url_to_avif lib client url q l w h tmo =
        (ClientGet \<lparr>timeout = tmo, follow_redirects = True\<rparr> url # RaiseForStatus resp # t,
         Inl \<lparr>status_code = 500, detail = str_exn e\<rparr>))"
  by (simp add: convert_url_to_avif_unfold [OF assms])

lemma demo_scheme_more:
  "re_match_I scheme_pattern ''http://unreachable.example/''"
  "re_match_I scheme_pattern ''https://example.com/missing''"
  "re_match_I scheme_pattern ''http://example.com/bad''"
  "re_match_I scheme_pattern ''http://example.com/a.png''"
  by code_simp+

lemma demo_open_bad: "image_open demo_pillow ''xx'' = Inl (Exn OtherException ''cannot identify image file'')"
  by (simp add: demo_pillow_def demo_open_def)

lemma demo_fetches:
  "client_get demo_httpx \<lparr>timeout = 20, follow_redirects = True\<rparr> ''http://unreachable.example/'' =
     Inl (Exn HTTPError ''All connection attempts failed'')"
  "client_get demo_httpx \<lparr>timeout = 20, follow_redirects = True\<rparr> ''https://example.com/missing'' =
     Inr \<lparr>resp_status_code = 404, resp_headers = [], resp_content = []\<rparr>"
  "raise_for_status demo_httpx \<lparr>resp_status_code = 404, resp_headers = [], resp_content = []\<rparr> =
     Inl (Exn HTTPError ''Client error'')"
  "client_get demo_httpx \<lparr>timeout = 20, follow_redirects = True\<rparr> ''http://example.com/bad'' =
     Inr \<lparr>resp_status_code = 200, resp_headers = [(''Content-Type'', ''image/png'')],
          resp_content = ''xx''\<rparr>"
  "raise_for_status demo_httpx
     \<lparr>resp_status_code = 200, resp_headers = [(''Content-Type'', ''image/png'')],
      resp_content = ''xx''\<rparr> = Inr ()"
  "to_avif_bytes demo_pillow ''xx'' 60 False None None =
     ([ImageOpen ''xx''], Inl (Exn OtherException ''cannot identify image file''))"
  by (simp_all add: demo_httpx_def to_avif_bytes_unfold demo_open_bad)

theorem url_handler_error_mapping_witness:
  "convert_url_to_avif demo_pillow demo_httpx ''http://unreachable.example/'' 60 False None None 20 =
     ([ClientGet \<lparr>timeout = 20, follow_redirects = True\<rparr> ''http://unreachable.example/''],
      Inl \<lparr>status_code = 502, detail = ''Fetch failed: All connection attempts failed''\<rparr>) \<and>
   convert_url_to_avif demo_pillow demo_httpx ''https://example.com/missing'' 60 False None None 20 =
     ([ClientGet \<lparr>timeout = 20, follow_redirects = True\<rparr> ''https://example.com/missing'',
       RaiseForStatus \<lparr>resp_status_code = 404, resp_headers = [], resp_content = []\<rparr>],
      Inl \<lparr>status_code = 502, detail = ''Fetch failed: Client error''\<rparr>) \<and>
   convert_url_to_avif demo_pillow demo_httpx ''http://example.com/bad'' 60 False None None 20 =
     ([ClientGet \<lparr>timeout = 20, follow_redirects = True\<rparr> ''http://example.com/bad'',
       RaiseForStatus \<lparr>resp_status_code = 200, resp_headers = [(''Content-Type'', ''image/png'')],
                       resp_content = ''xx''\<rparr>,
       ImageOpen ''xx''],
      Inl \<lparr>status_code = 500, detail = ''cannot identify image file''\<rparr>)"
  using
    url_handler_error_mapping [OF demo_scheme_more(1), of demo_httpx 20
      "Exn HTTPError ''All connection attempts failed''" demo_pillow 60 False None None]
    url_handler_error_mapping [OF demo_scheme_more(2), of demo_httpx 20
      "Exn HTTPError ''Client error''" demo_pillow 60 False None None
      "\<lparr>resp_status_code = 404, resp_headers = [], resp_content = []\<rparr>"]
    url_handler_error_mapping [OF demo_scheme_more(3), of demo_httpx 20
      "Exn OtherException ''cannot identify image file''" demo_pillow 60 False None None
      "\<lparr>resp_status_code = 200, resp_headers = [(''Content-Type'', ''image/png'')],
        resp_content = ''xx''\<rparr>" "[ImageOpen ''xx'']"]
  by (simp add: demo_fetches)

text \<open>
  C8. After a successful fetch the URL handler enters the conversion routine on the
  fetched body, whatever the headers of the response: the calls of the routine, the first
  of them the decoding of the body, follow the fetch, and the answer is the routine's
  result or the error answer for its exception. No answer depends on the content type.
\<close>

theorem url_handler_ignores_content_type:
  assumes "re_match_I scheme_pattern url"
    and "client_get client \<lparr>timeout = tmo, follow_redirects = True\<rparr> url = Inr resp"
    and "raise_for_status client resp = Inr ()"
  shows
  \<open>\<exists>t r. to_avif_bytes lib (resp_content resp) q l w h = (ImageOpen (resp_content resp) # t, r) \<and>
     convert_url_to_avif lib client url q l w h tmo =
       (ClientGet \<lparr>timeout = tmo, follow_redirects = True\<rparr> url # RaiseForStatus resp
          # ImageOpen (resp_content resp) # t,
        case r of
          Inl e \<Rightarrow>
            Inl (if is_HTTPError e
                 then \<lparr>status_code = 502, detail = ''Fetch failed: '' @ str_exn e\<rparr>
                 else \<lparr>status_code = 500, detail = str_exn e\<rparr>)
        | Inr avif \<Rightarrow>
            Inr \<lparr>content = avif, media_type = ''image/avif'',
                 headers = [(''Content-Disposition'', ''attachment; filename="image.avif"'')]\<rparr>)\<close>
proof -
  obtain t r where
    run: "to_avif_bytes lib (resp_content resp) q l w h = (ImageOpen (resp_content resp) # t, r)"
    using to_avif_bytes_opens by blast
  show ?thesis
    using assms(2,3) run
    by (simp add: convert_url_to_avif_unfold [OF assms(1)] split: sum.splits)
qed

lemma demo_fetch_html:
  "client_get demo_httpx \<lparr>timeout = 20, follow_redirects = True\<rparr> ''http://example.com/a.png'' =
     Inr \<lparr>resp_status_code = 200, resp_headers = [(''Content-Type'', ''text/html'')],
          resp_content = demo_file ''P'' 49 49 ''abc''\<rparr>"
  "raise_for_status demo_httpx
     \<lparr>resp_status_code = 200, resp_headers = [(''Content-Type'', ''text/html'')],
      resp_content = demo_file ''P'' 49 49 ''abc''\<rparr> = Inr ()"
  "fetched_content_type demo_httpx
     \<lparr>resp_status_code = 200, resp_headers = [(''Content-Type'', ''text/html'')],
      resp_content = demo_file ''P'' 49 49 ''abc''\<rparr> = ''text/html''"
  "to_avif_bytes demo_pillow (demo_file ''P'' 49 49 ''abc'') 60 False None None =
     ([ImageOpen (demo_file ''P'' 49 49 ''abc''),
       ImageConvert \<lparr>mode = ''P'', isize = (49, 49), pixels = ''abc''\<rparr> ''RGBA'',
       ImageSave \<lparr>mode = ''RGBA'', isize = (49, 49), pixels = ''abc''\<rparr>
         [(''format'', PyStr ''AVIF''), (''quality'', PyInt 60)]],
      Inr ''avif:abc'')"
  by code_simp+

theorem url_handler_ignores_content_type_witness:
  \<open>fetched_content_type demo_httpx
     \<lparr>resp_status_code = 200, resp_headers = [(''Content-Type'', ''text/html'')],
      resp_content = demo_file ''P'' 49 49 ''abc''\<rparr> \<notin> accepted_types \<and>
   convert_url_to_avif demo_pillow demo_httpx ''http://example.com/a.png'' 60 False None None 20 =
     ([ClientGet \<lparr>timeout = 20, follow_redirects = True\<rparr> ''http://example.com/a.png'',
       RaiseForStatus \<lparr>resp_status_code = 200, resp_headers = [(''Content-Type'', ''text/html'')],
                       resp_content = demo_file ''P'' 49 49 ''abc''\<rparr>,
       ImageOpen (demo_file ''P'' 49 49 ''abc''),
       ImageConvert \<lparr>mode = ''P'', isize = (49, 49), pixels = ''abc''\<rparr> ''RGBA'',
       ImageSave \<lparr>mode = ''RGBA'', isize = (49, 49), pixels = ''abc''\<rparr>
         [(''format'', PyStr ''AVIF''), (''quality'', PyInt 60)]],
      Inr \<lparr>content = ''avif:abc'', media_type = ''image/avif'',
           headers = [(''Content-Disposition'', ''attachment; filename="image.avif"'')]\<rparr>)\<close>
  using url_handler_ignores_content_type [OF demo_scheme_more(4) demo_fetch_html(1,2),
      of demo_pillow 60 False None None]
  by (auto simp: demo_fetch_html accepted_types_def)



lemma index0_rsplit1: "index0 (rsplit1 s sep) = Inr (hd (rsplit1 s sep))"
  by (simp add: index0_def rsplit1_def)

lemma convert_file_to_avif_unfold:
  assumes "content_type file = Some ct" and "ct \<in> accepted_types" and "read file = Inr data"
  shows \<open>convert_file_to_avif lib file q l w h =
     (case to_avif_bytes lib data q l w h of
        (t, Inl e) \<Rightarrow> (FileRead # t, Inl \<lparr>status_code = 500, detail = str_exn e\<rparr>)
      | (t, Inr avif) \<Rightarrow>
          (FileRead # t,
           case response_init avif ''image/avif''
                  (''attachment; filename="''
                     @ hd (rsplit1 (str_or (filename file) ''image'') CHR ''.'') @ ''.avif"'') of
             Inl e \<Rightarrow> Inl \<lparr>status_code = 500, detail = str_exn e\<rparr>
           | Inr r \<Rightarrow> Inr r))\<close>
  using assms
  by (simp add: convert_file_to_avif_def call_def lift_def bind_io_def index0_rsplit1
      split: sum.splits prod.splits)






lemma scale_dim_examples:
  "scale_dim 1 (Some 1) 1000 = Inr 0"
  "scale_dim 49 (Some 1) 49 = Inr 0"
  "scale_dim 1000 (Some 1) 1 = Inr 1000"
  by code_simp+

lemma resize_rejects_emptyD:
  "resize_rejects_empty lib \<Longrightarrow> tw < 1 \<or> th < 1 \<Longrightarrow>
   \<exists>e. image_resize lib img (tw, th) f = Inl e \<and> \<not> is_HTTPError e"
  unfolding resize_rejects_empty_def by blast

lemma resize_step_zero:
  assumes "resize_rejects_empty lib" and "isize img = (w, h)"
    and "(width = Some tw \<and> height = None \<and> tw \<noteq> 0 \<and> scale_dim h (Some tw) w = Inr 0) \<or>
         (width = None \<and> height = Some th \<and> th \<noteq> 0 \<and> scale_dim w (Some th) h = Inr 0)"
  shows "\<exists>sz e. (fst sz = 0 \<or> snd sz = 0) \<and> \<not> is_HTTPError e \<and>
           resize_step lib img width height = ([ImageResize img sz LANCZOS], Inl e)"
  using assms(3)
proof (elim disjE conjE)
  assume a: "width = Some tw" "height = None" "tw \<noteq> 0" "scale_dim h (Some tw) w = Inr 0"
  obtain e where "image_resize lib img (tw, 0) LANCZOS = Inl e" "\<not> is_HTTPError e"
    using resize_rejects_emptyD [OF assms(1), of tw 0 img LANCZOS] by auto
  with a assms(2) show ?thesis
    by (auto simp: resize_step_width intro!: exI [of _ "(tw, 0)"])
next
  assume a: "width = None" "height = Some th" "th \<noteq> 0" "scale_dim w (Some th) h = Inr 0"
  obtain e where "image_resize lib img (0, th) LANCZOS = Inl e" "\<not> is_HTTPError e"
    using resize_rejects_emptyD [OF assms(1), of 0 th img LANCZOS] by auto
  with a assms(2) show ?thesis
    by (auto simp: resize_step_height intro!: exI [of _ "(0, th)"])
qed

text \<open>
  C10. The computed dimension can be 0: \<open>int(1 * (1 / 1000))\<close> is 0, and so is
  \<open>int(49 * (1 / 49))\<close>. Whenever a single dimension is supplied and the computed one is 0,
  the routine calls resize with a zero dimension; with a resize that rejects such a size
  the routine raises there, without calling the encoder, and both handlers answer 500 with
  the message of that exception.
\<close>

theorem zero_dimension_ends_in_500:
  assumes "resize_rejects_empty lib"
    and "image_open lib data = Inr img0" and "normalize_mode lib img0 = (t1, Inr img)"
    and "isize img = (w, h)"
    and "(width = Some tw \<and> height = None \<and> tw \<noteq> 0 \<and> scale_dim h (Some tw) w = Inr 0) \<or>
         (width = None \<and> height = Some th \<and> th \<noteq> 0 \<and> scale_dim w (Some th) h = Inr 0)"
  shows
  "scale_dim 1 (Some 1) 1000 = Inr 0 \<and> scale_dim 49 (Some 1) 49 = Inr 0 \<and>
   (\<exists>sz e. (fst sz = 0 \<or> snd sz = 0) \<and>
      to_avif_bytes lib data q l width height =
        (ImageOpen data # t1 @ [ImageResize img sz LANCZOS], Inl e) \<and>
      (content_type file = Some ct \<and> ct \<in> accepted_types \<and> read file = Inr data \<longrightarrow>
         convert_file_to_avif lib file q l width height =
           (FileRead # ImageOpen data # t1 @ [ImageResize img sz LANCZOS],
            Inl \<lparr>status_code = 500, detail = str_exn e\<rparr>)) \<and>
      (re_match_I scheme_pattern url \<and>
       client_get client \<lparr>timeout = tmo, follow_redirects = True\<rparr> url = Inr resp \<and>
       raise_for_status client resp = Inr () \<and> resp_content resp = data \<longrightarrow>
         convert_url_to_avif lib client url q l width height tmo =
           (ClientGet \<lparr>timeout = tmo, follow_redirects = True\<rparr> url # RaiseForStatus resp
              # ImageOpen data # t1 @ [ImageResize img sz LANCZOS],
            Inl \<lparr>status_code = 500, detail = str_exn e\<rparr>)))"
proof -
  obtain sz e where z: "fst sz = 0 \<or> snd sz = 0" and e: "\<not> is_HTTPError e"
    and r: "resize_step lib img width height = ([ImageResize img sz LANCZOS], Inl e)"
    using resize_step_zero [OF assms(1,4,5)] by blast
  have run: "to_avif_bytes lib data q l width height =
      (ImageOpen data # t1 @ [ImageResize img sz LANCZOS], Inl e)"
    using assms(2,3) r by (simp add: to_avif_bytes_unfold)
  have up: "content_type file = Some ct \<and> ct \<in> accepted_types \<and> read file = Inr data \<longrightarrow>
      convert_file_to_avif lib file q l width height =
        (FileRead # ImageOpen data # t1 @ [ImageResize img sz LANCZOS],
         Inl \<lparr>status_code = 500, detail = str_exn e\<rparr>)"
    using run by (auto simp: convert_file_to_avif_unfold)
  have fetch: "re_match_I scheme_pattern url \<and>
      client_get client \<lparr>timeout = tmo, follow_redirects = True\<rparr> url = Inr resp \<and>
      raise_for_status client resp = Inr () \<and> resp_content resp = data \<longrightarrow>
        convert_url_to_avif lib client url q l width height tmo =
          (ClientGet \<lparr>timeout = tmo, follow_redirects = True\<rparr> url # RaiseForStatus resp
             # ImageOpen data # t1 @ [ImageResize img sz LANCZOS],
           Inl \<lparr>status_code = 500, detail = str_exn e\<rparr>)"
    using run e by (auto simp: convert_url_to_avif_unfold)
  from z run up fetch show ?thesis
    by (intro conjI exI [of _ sz] exI [of _ e]) (simp_all add: scale_dim_examples)
qed

lemma demo_open_49:
  "image_open demo_pillow (demo_file ''A'' 49 49 ''abc'') =
     Inr \<lparr>mode = ''RGBA'', isize = (49, 49), pixels = ''abc''\<rparr>"
  by code_simp

lemma demo_normalize_49:
  "normalize_mode demo_pillow \<lparr>mode = ''RGBA'', isize = (49, 49), pixels = ''abc''\<rparr> =
     ([], Inr \<lparr>mode = ''RGBA'', isize = (49, 49), pixels = ''abc''\<rparr>)"
  by (simp add: normalize_mode_keep)

lemma demo_resize_49:
  "resize_step demo_pillow \<lparr>mode = ''RGBA'', isize = (49, 49), pixels = ''abc''\<rparr> (Some 1) None =
     ([ImageResize \<lparr>mode = ''RGBA'', isize = (49, 49), pixels = ''abc''\<rparr> (1, 0) LANCZOS],
      Inl (Exn ValueError ''height and width must be > 0''))"
  by (simp add: resize_step_width [where w = 49 and h = 49 and th = 0] scale_dim_examples
      demo_pillow_def demo_resize_def)

lemma demo_run_49:
  "to_avif_bytes demo_pillow (demo_file ''A'' 49 49 ''abc'') 60 False (Some 1) None =
     ([ImageOpen (demo_file ''A'' 49 49 ''abc''),
       ImageResize \<lparr>mode = ''RGBA'', isize = (49, 49), pixels = ''abc''\<rparr> (1, 0) LANCZOS],
      Inl (Exn ValueError ''height and width must be > 0''))"
  by (simp add: to_avif_bytes_unfold demo_open_49 demo_normalize_49 demo_resize_49)

theorem zero_dimension_ends_in_500_witness:
  "convert_file_to_avif demo_pillow
     \<lparr>content_type = Some ''image/png'', filename = Some ''square.png'',
      read = Inr (demo_file ''A'' 49 49 ''abc'')\<rparr> 60 False (Some 1) None =
     ([FileRead, ImageOpen (demo_file ''A'' 49 49 ''abc''),
       ImageResize \<lparr>mode = ''RGBA'', isize = (49, 49), pixels = ''abc''\<rparr> (1, 0) LANCZOS],
      Inl \<lparr>status_code = 500, detail = ''height and width must be > 0''\<rparr>)"
  using zero_dimension_ends_in_500 [OF demo_resize_rejects_empty demo_open_49 demo_normalize_49,
      of 49 49 "Some 1" 1 None _ 60 False
      "\<lparr>content_type = Some ''image/png'', filename = Some ''square.png'',
        read = Inr (demo_file ''A'' 49 49 ''abc'')\<rparr>" "''image/png''"]
  by (auto simp: scale_dim_examples accepted_types_def demo_run_49)

end
